theory Spec2Isabelle
  imports Main "HOL-Library.AList"
begin

section \<open>JSON values and the JavaScript operators the handlers apply to them\<close>

text \<open>
  Request bodies and stored records are JSON values. A number is represented by its
  canonical rendering (what \<^verbatim>\<open>String(n)\<close> gives): two numbers are \<^verbatim>\<open>===\<close> exactly when
  their renderings agree. The falsy numbers render as \<^verbatim>\<open>0\<close> and \<^verbatim>\<open>NaN\<close>. A JSON text can
  denote a number that is not finite: \<^verbatim>\<open>JSON.parse\<close> reads \<^verbatim>\<open>1e400\<close> as \<^verbatim>\<open>Infinity\<close>, which
  is truthy. The JavaScript value \<^verbatim>\<open>undefined\<close> is \<open>None\<close> of \<open>json option\<close>.
\<close>

datatype json =
    JNull
  | JBool bool
  | JNum string
  | JStr string
  | JArr "json list"
  | JObj "(string \<times> json) list"

type_synonym obj = "(string \<times> json) list"

fun truthy :: "json \<Rightarrow> bool" where
  "truthy JNull = False"
| "truthy (JBool b) = b"
| "truthy (JNum n) = (n \<noteq> ''0'' \<and> n \<noteq> ''NaN'')"
| "truthy (JStr s) = (s \<noteq> [])"
| "truthy (JArr xs) = True"
| "truthy (JObj kvs) = True"

definition js_truthy :: "json option \<Rightarrow> bool" where
  "js_truthy v = (case v of None \<Rightarrow> False | Some j \<Rightarrow> truthy j)"

text \<open>\<^verbatim>\<open>a || b\<close>\<close>

definition js_or :: "json option \<Rightarrow> json option \<Rightarrow> json option" where
  "js_or a b = (if js_truthy a then a else b)"

text \<open>\<^verbatim>\<open>v === s\<close> and \<^verbatim>\<open>v !== s\<close> for a string \<open>s\<close>: every strict comparison in the
  handlers has a string on one side.\<close>

definition strict_eq :: "json option \<Rightarrow> string \<Rightarrow> bool" where
  "strict_eq v s = (v = Some (JStr s))"

fun join_comma :: "string list \<Rightarrow> string" where
  "join_comma [] = []"
| "join_comma [x] = x"
| "join_comma (x # y # ys) = x @ '','' @ join_comma (y # ys)"

text \<open>The string a template literal \<^verbatim>\<open>`${v}`\<close> inserts for a value.\<close>

fun js_string :: "json \<Rightarrow> string" where
  "js_string JNull = ''null''"
| "js_string (JBool b) = (if b then ''true'' else ''false'')"
| "js_string (JNum n) = n"
| "js_string (JStr s) = s"
| "js_string (JArr xs) = join_comma (map (\<lambda>x. if x = JNull then [] else js_string x) xs)"
| "js_string (JObj kvs) = ''[object Object]''"

definition template :: "json option \<Rightarrow> string" where
  "template v = (case v of None \<Rightarrow> ''undefined'' | Some j \<Rightarrow> js_string j)"

text \<open>
  What a value is after \<^verbatim>\<open>JSON.stringify\<close> has written it and a reader has parsed it
  again, as happens to every value that \<^verbatim>\<open>kv.set\<close> stores and \<^verbatim>\<open>c.json\<close> returns: a number
  that is not finite is written \<^verbatim>\<open>null\<close>, at any depth; everything else is kept.
\<close>

primrec serialise :: "json \<Rightarrow> json" where
  "serialise JNull = JNull"
| "serialise (JBool b) = JBool b"
| "serialise (JNum n) =
     (if n = ''Infinity'' \<or> n = ''-Infinity'' \<or> n = ''NaN'' then JNull else JNum n)"
| "serialise (JStr s) = JStr s"
| "serialise (JArr xs) = JArr (map serialise xs)"
| "serialise (JObj kvs) = JObj (map (map_prod id serialise) kvs)"

definition serialise_obj :: "obj \<Rightarrow> obj" where
  "serialise_obj ob = map (map_prod id serialise) ob"

text \<open>
  Writing a property. A property whose value is \<^verbatim>\<open>undefined\<close> does not survive the
  serialisation either, so it is absent from the object. An object literal is a sequence
  of such writes on the empty object, and \<^verbatim>\<open>{...o, k: v}\<close> is the same sequence on \<open>o\<close>.
\<close>

definition set_prop :: "string \<Rightarrow> json option \<Rightarrow> obj \<Rightarrow> obj" where
  "set_prop k v ob = (case v of None \<Rightarrow> AList.delete k ob | Some j \<Rightarrow> AList.update k j ob)"

definition spread_with :: "obj \<Rightarrow> (string \<times> json option) list \<Rightarrow> obj" where
  "spread_with ob kvs = fold (\<lambda>(k, v). set_prop k v) kvs ob"

definition object :: "(string \<times> json option) list \<Rightarrow> obj" where
  "object kvs = spread_with [] kvs"

datatype exn = SyntaxError | TypeError

text \<open>
  Reading properties of a parsed body (\<^verbatim>\<open>const { title } = body\<close>, \<^verbatim>\<open>body.title\<close>):
  \<^verbatim>\<open>null\<close> throws a TypeError, an object gives its own properties, and a string, number,
  boolean or array has none of the properties the handlers read.
\<close>

definition props :: "json \<Rightarrow> exn + obj" where
  "props b = (case b of JNull \<Rightarrow> Inl TypeError | JObj kvs \<Rightarrow> Inr kvs | _ \<Rightarrow> Inr [])"

section \<open>The key-value store\<close>

text \<open>
  Modelled from the spec: the module \<^verbatim>\<open>kv_store.tsx\<close> that the server imports is not
  among the sources. The spec describes it as a flat persistent mapping from string key to
  JSON value, supporting get, set, delete and prefix scan. Every value the server stores is
  an object literal, so the values are objects. Values travel to the table and back as
  JSON text: \<open>kv_set\<close> stores the serialised value, and a read gives what parsing the
  stored text gives.
\<close>

type_synonym kv = "(string \<times> obj) list"

definition startsWith :: "string \<Rightarrow> string \<Rightarrow> bool" where
  "startsWith s p = (take (length p) s = p)"

definition kv_get :: "string \<Rightarrow> kv \<Rightarrow> obj option" where
  "kv_get k s = map_option serialise_obj (map_of s k)"

definition kv_set :: "string \<Rightarrow> obj \<Rightarrow> kv \<Rightarrow> kv" where
  "kv_set k v s = AList.update k (serialise_obj v) s"

definition kv_del :: "string \<Rightarrow> kv \<Rightarrow> kv" where
  "kv_del k s = AList.delete k s"

definition kv_getByPrefix :: "string \<Rightarrow> kv \<Rightarrow> obj list" where
  "kv_getByPrefix p s = map (\<lambda>(k, v). serialise_obj v) (filter (\<lambda>(k, v). startsWith k p) s)"

text \<open>The writes a handler issues, in the order in which the store receives them.\<close>

datatype kv_write = KvSet string obj | KvDel string

fun apply_write :: "kv_write \<Rightarrow> kv \<Rightarrow> kv" where
  "apply_write (KvSet k v) s = kv_set k v s"
| "apply_write (KvDel k) s = kv_del k s"

definition apply_writes :: "kv_write list \<Rightarrow> kv \<Rightarrow> kv" where
  "apply_writes ws s = fold apply_write ws s"

section \<open>Requests, responses and the environment of one request\<close>

record request =
  authorization :: "string option"
  json_body :: "json option"

record response =
  status :: nat
  payload :: obj

text \<open>
  What the identity provider answers: \<open>reply_error\<close> is the message of \<^verbatim>\<open>error\<close> (\<open>None\<close>
  when \<^verbatim>\<open>error\<close> is null), \<open>reply_user\<close> the id of \<^verbatim>\<open>data.user\<close> (\<open>None\<close> when it is null).
\<close>

record getUser_reply =
  reply_error :: "string option"
  reply_user :: "string option"

datatype createUser_reply = CreateFailed "json option" | Created string json

text \<open>
  The environment of one request: the identity provider, the value \<^verbatim>\<open>generateId()\<close>
  returns and the value of \<^verbatim>\<open>new Date().toISOString()\<close>. Each handler calls the last two
  at most once.
\<close>

record env =
  getUser :: "string option \<Rightarrow> getUser_reply"
  createUser :: "json option \<Rightarrow> json option \<Rightarrow> json option \<Rightarrow> createUser_reply"
  generateId :: string
  now :: string

definition json_response :: "nat \<Rightarrow> (string \<times> json option) list \<Rightarrow> response" where
  "json_response code kvs = \<lparr>status = code, payload = serialise_obj (object kvs)\<rparr>"

definition error_response :: "nat \<Rightarrow> string \<Rightarrow> response" where
  "error_response code msg = json_response code [(''error'', Some (JStr msg))]"

section \<open>verifyUser\<close>

fun split_space :: "string \<Rightarrow> string list" where
  "split_space [] = [[]]"
| "split_space (c # cs) =
     (if c = CHR '' '' then [] # split_space cs
      else (case split_space cs of [] \<Rightarrow> [[c]] | w # ws \<Rightarrow> (c # w) # ws))"

fun nth_opt :: "'a list \<Rightarrow> nat \<Rightarrow> 'a option" where
  "nth_opt [] n = None"
| "nth_opt (x # xs) 0 = Some x"
| "nth_opt (x # xs) (Suc n) = nth_opt xs n"

record verified =
  error :: "string option"
  userId :: "string option"

definition verifyUser :: "env \<Rightarrow> request \<Rightarrow> verified" where
  "verifyUser e r =
     (case authorization r of
        None \<Rightarrow> \<lparr>error = Some ''No token provided'', userId = None\<rparr>
      | Some authHeader \<Rightarrow>
          if \<not> startsWith authHeader ''Bearer '' then
            \<lparr>error = Some ''No token provided'', userId = None\<rparr>
          else
            let accessToken = nth_opt (split_space authHeader) 1;
                reply = getUser e accessToken
            in if reply_error reply \<noteq> None \<or> reply_user reply = None then
                 \<lparr>error = Some (case reply_error reply of
                                  None \<Rightarrow> ''Unauthorized''
                                | Some m \<Rightarrow> if m \<noteq> [] then m else ''Unauthorized''),
                  userId = None\<rparr>
               else \<lparr>error = None, userId = reply_user reply\<rparr>)"

definition str_truthy :: "string option \<Rightarrow> bool" where
  "str_truthy v = (case v of None \<Rightarrow> False | Some s \<Rightarrow> s \<noteq> [])"

text \<open>
  The opening of every protected handler,
  \<^verbatim>\<open>const { error, userId } = await verifyUser(c.req.raw); if (error || !userId) return 401\<close>:
  \<open>None\<close> when the handler answers 401, the caller's id otherwise.
\<close>

definition authenticate :: "env \<Rightarrow> request \<Rightarrow> string option" where
  "authenticate e r =
     (let v = verifyUser e r
      in if str_truthy (error v) \<or> \<not> str_truthy (userId v) then None else userId v)"

definition unauthorized :: response where
  "unauthorized = error_response 401 ''Unauthorized''"

section \<open>The route handlers\<close>

text \<open>
  A handler maps the store to a response and the store after it. The body of each
  \<^verbatim>\<open>try\<close> block gives \<open>Inl\<close> where it throws; \<open>catch500\<close> is the \<^verbatim>\<open>catch\<close> clause. Every
  throw of a handler happens before its first write to the store.
\<close>

definition catch500 :: "string \<Rightarrow> kv \<Rightarrow> exn + response \<times> kv \<Rightarrow> response \<times> kv" where
  "catch500 msg s r = (case r of Inl x \<Rightarrow> (error_response 500 msg, s) | Inr v \<Rightarrow> v)"

text \<open>\<^verbatim>\<open>await c.req.json()\<close> followed by the first property read of the body.\<close>

definition body_props :: "request \<Rightarrow> exn + obj" where
  "body_props r = (case json_body r of None \<Rightarrow> Inl SyntaxError | Some b \<Rightarrow> props b)"

definition objects :: "obj list \<Rightarrow> json option" where
  "objects xs = Some (JArr (map JObj xs))"

definition signup :: "env \<Rightarrow> request \<Rightarrow> kv \<Rightarrow> response \<times> kv" where
  "signup e r s = catch500 ''Failed to sign up'' s
     (case body_props r of
        Inl x \<Rightarrow> Inl x
      | Inr body \<Rightarrow> Inr
         (let email = map_of body ''email'';
              password = map_of body ''password'';
              name = map_of body ''name''
          in if \<not> js_truthy email \<or> \<not> js_truthy password \<or> \<not> js_truthy name then
               (error_response 400 ''Email, password, and name are required'', s)
             else
               (case createUser e email password name of
                  CreateFailed message \<Rightarrow> (json_response 400 [(''error'', message)], s)
                | Created uid user \<Rightarrow>
                    (json_response 200 [(''success'', Some (JBool True)), (''user'', Some user)],
                     kv_set (''user:'' @ uid)
                       (object [(''id'', Some (JStr uid)), (''email'', email), (''name'', name)]) s))))"

definition get_books :: "kv \<Rightarrow> response \<times> kv" where
  "get_books s = (json_response 200 [(''books'', objects (kv_getByPrefix ''book:'' s))], s)"

definition user_name :: "obj option \<Rightarrow> json option" where
  "user_name user =
     js_or (case user of None \<Rightarrow> None | Some u \<Rightarrow> map_of u ''name'') (Some (JStr ''Unknown User''))"

definition enrich :: "kv \<Rightarrow> obj \<Rightarrow> obj" where
  "enrich s collection =
     (let user = kv_get (''user:'' @ template (map_of collection ''userId'')) s
      in spread_with collection [(''userName'', user_name user)])"

definition get_collections :: "kv \<Rightarrow> response \<times> kv" where
  "get_collections s =
     (let collections = kv_getByPrefix ''collection:'' s;
          enrichedCollections = map (enrich s) collections
      in (json_response 200 [(''collections'', objects enrichedCollections)], s))"

definition get_user_collections :: "string \<Rightarrow> kv \<Rightarrow> response \<times> kv" where
  "get_user_collections uid s =
     (let allCollections = kv_getByPrefix ''collection:'' s;
          userCollections = filter (\<lambda>col. strict_eq (map_of col ''userId'') uid) allCollections;
          user = kv_get (''user:'' @ uid) s
      in (json_response 200
            [(''collections'', objects userCollections), (''userName'', user_name user)], s))"

definition get_collection_books :: "string \<Rightarrow> kv \<Rightarrow> response \<times> kv" where
  "get_collection_books collectionId s =
     (let allBooks = kv_getByPrefix ''book:'' s;
          collectionBooks =
            filter (\<lambda>book. strict_eq (map_of book ''collectionId'') collectionId) allBooks;
          collection = kv_get (''collection:'' @ collectionId) s
      in (json_response 200
            [(''books'', objects collectionBooks),
             (''collection'', (case collection of None \<Rightarrow> Some JNull | Some c \<Rightarrow> Some (JObj c)))],
          s))"

definition get_my_books :: "env \<Rightarrow> request \<Rightarrow> kv \<Rightarrow> response \<times> kv" where
  "get_my_books e r s =
     (case authenticate e r of
        None \<Rightarrow> (unauthorized, s)
      | Some uid \<Rightarrow>
          (let allBooks = kv_getByPrefix ''book:'' s;
               userBooks = filter (\<lambda>book. strict_eq (map_of book ''userId'') uid) allBooks
           in (json_response 200 [(''books'', objects userBooks)], s)))"

definition get_my_collections :: "env \<Rightarrow> request \<Rightarrow> kv \<Rightarrow> response \<times> kv" where
  "get_my_collections e r s =
     (case authenticate e r of
        None \<Rightarrow> (unauthorized, s)
      | Some uid \<Rightarrow>
          (let allCollections = kv_getByPrefix ''collection:'' s;
               userCollections =
                 filter (\<lambda>col. strict_eq (map_of col ''userId'') uid) allCollections
           in (json_response 200 [(''collections'', objects userCollections)], s)))"

definition post_my_collections :: "env \<Rightarrow> request \<Rightarrow> kv \<Rightarrow> response \<times> kv" where
  "post_my_collections e r s =
     (case authenticate e r of
        None \<Rightarrow> (unauthorized, s)
      | Some uid \<Rightarrow> catch500 ''Failed to create collection'' s
          (case body_props r of
             Inl x \<Rightarrow> Inl x
           | Inr body \<Rightarrow> Inr
              (let name = map_of body ''name'';
                   description = map_of body ''description''
               in if \<not> js_truthy name then
                    (error_response 400 ''Collection name is required'', s)
                  else
                    let collectionId = generateId e;
                        collection = object
                          [(''id'', Some (JStr collectionId)),
                           (''name'', name),
                           (''description'', js_or description (Some (JStr []))),
                           (''userId'', Some (JStr uid)),
                           (''createdAt'', Some (JStr (now e)))]
                    in (json_response 200
                          [(''success'', Some (JBool True)), (''collection'', Some (JObj collection))],
                        kv_set (''collection:'' @ collectionId) collection s))))"

definition post_my_books :: "env \<Rightarrow> request \<Rightarrow> kv \<Rightarrow> response \<times> kv" where
  "post_my_books e r s =
     (case authenticate e r of
        None \<Rightarrow> (unauthorized, s)
      | Some uid \<Rightarrow> catch500 ''Failed to create book'' s
          (case body_props r of
             Inl x \<Rightarrow> Inl x
           | Inr body \<Rightarrow> Inr
              (let title = map_of body ''title'';
                   author = map_of body ''author'';
                   description = map_of body ''description'';
                   collectionId = map_of body ''collectionId'';
                   coverImage = map_of body ''coverImage''
               in if \<not> js_truthy title \<or> \<not> js_truthy collectionId then
                    (error_response 400 ''Title and collection are required'', s)
                  else
                    (case kv_get (''collection:'' @ template collectionId) s of
                       None \<Rightarrow> (error_response 403 ''Invalid collection'', s)
                     | Some collection \<Rightarrow>
                         if \<not> strict_eq (map_of collection ''userId'') uid then
                           (error_response 403 ''Invalid collection'', s)
                         else
                           let bookId = generateId e;
                               book = object
                                 [(''id'', Some (JStr bookId)),
                                  (''title'', title),
                                  (''author'', js_or author (Some (JStr []))),
                                  (''description'', js_or description (Some (JStr []))),
                                  (''coverImage'', js_or coverImage (Some (JStr []))),
                                  (''collectionId'', collectionId),
                                  (''userId'', Some (JStr uid)),
                                  (''createdAt'', Some (JStr (now e)))]
                           in (json_response 200
                                 [(''success'', Some (JBool True)), (''book'', Some (JObj book))],
                               kv_set (''book:'' @ bookId) book s)))))"

text \<open>\<^verbatim>\<open>body.k !== undefined ? body.k : old.k\<close>\<close>

definition if_defined :: "json option \<Rightarrow> json option \<Rightarrow> json option" where
  "if_defined a b = (if a \<noteq> None then a else b)"

definition put_my_book :: "env \<Rightarrow> string \<Rightarrow> request \<Rightarrow> kv \<Rightarrow> response \<times> kv" where
  "put_my_book e bookId r s =
     (case authenticate e r of
        None \<Rightarrow> (unauthorized, s)
      | Some uid \<Rightarrow>
          (case kv_get (''book:'' @ bookId) s of
             None \<Rightarrow> (error_response 403 ''Book not found or unauthorized'', s)
           | Some book \<Rightarrow>
               if \<not> strict_eq (map_of book ''userId'') uid then
                 (error_response 403 ''Book not found or unauthorized'', s)
               else catch500 ''Failed to update book'' s
                 (case body_props r of
                    Inl x \<Rightarrow> Inl x
                  | Inr body \<Rightarrow> Inr
                     (let updatedBook = spread_with book
                            [(''title'', js_or (map_of body ''title'') (map_of book ''title'')),
                             (''author'', if_defined (map_of body ''author'') (map_of book ''author'')),
                             (''description'',
                                if_defined (map_of body ''description'') (map_of book ''description'')),
                             (''coverImage'',
                                if_defined (map_of body ''coverImage'') (map_of book ''coverImage'')),
                             (''collectionId'',
                                js_or (map_of body ''collectionId'') (map_of book ''collectionId'')),
                             (''updatedAt'', Some (JStr (now e)))]
                      in (json_response 200
                            [(''success'', Some (JBool True)), (''book'', Some (JObj updatedBook))],
                          kv_set (''book:'' @ bookId) updatedBook s)))))"

definition delete_my_book :: "env \<Rightarrow> string \<Rightarrow> request \<Rightarrow> kv \<Rightarrow> response \<times> kv" where
  "delete_my_book e bookId r s =
     (case authenticate e r of
        None \<Rightarrow> (unauthorized, s)
      | Some uid \<Rightarrow>
          (case kv_get (''book:'' @ bookId) s of
             None \<Rightarrow> (error_response 403 ''Book not found or unauthorized'', s)
           | Some book \<Rightarrow>
               if \<not> strict_eq (map_of book ''userId'') uid then
                 (error_response 403 ''Book not found or unauthorized'', s)
               else (json_response 200 [(''success'', Some (JBool True))],
                     kv_del (''book:'' @ bookId) s)))"

text \<open>
  The cascade: \<^verbatim>\<open>Promise.all\<close> over one \<^verbatim>\<open>kv.del\<close> per book of the collection, awaited,
  and only then the \<^verbatim>\<open>kv.del\<close> of the collection. \<open>delete_my_collection_run\<close> gives the
  response and the writes in the order in which they are awaited: the deletes of the books,
  listed in the order of the scan, and after them the delete of the collection. The store
  after the request is the store after these writes.
\<close>

definition delete_my_collection_run ::
  "env \<Rightarrow> string \<Rightarrow> request \<Rightarrow> kv \<Rightarrow> response \<times> kv_write list" where
  "delete_my_collection_run e collectionId r s =
     (case authenticate e r of
        None \<Rightarrow> (unauthorized, [])
      | Some uid \<Rightarrow>
          (case kv_get (''collection:'' @ collectionId) s of
             None \<Rightarrow> (error_response 403 ''Collection not found or unauthorized'', [])
           | Some collection \<Rightarrow>
               if \<not> strict_eq (map_of collection ''userId'') uid then
                 (error_response 403 ''Collection not found or unauthorized'', [])
               else
                 let allBooks = kv_getByPrefix ''book:'' s;
                     booksToDelete =
                       filter (\<lambda>book. strict_eq (map_of book ''collectionId'') collectionId) allBooks
                 in (json_response 200 [(''success'', Some (JBool True))],
                     map (\<lambda>book. KvDel (''book:'' @ template (map_of book ''id''))) booksToDelete @
                     [KvDel (''collection:'' @ collectionId)])))"

definition delete_my_collection :: "env \<Rightarrow> string \<Rightarrow> request \<Rightarrow> kv \<Rightarrow> response \<times> kv" where
  "delete_my_collection e collectionId r s =
     (let (resp, writes) = delete_my_collection_run e collectionId r s
      in (resp, apply_writes writes s))"

definition get_my_profile :: "env \<Rightarrow> request \<Rightarrow> kv \<Rightarrow> response \<times> kv" where
  "get_my_profile e r s =
     (case authenticate e r of
        None \<Rightarrow> (unauthorized, s)
      | Some uid \<Rightarrow>
          (let user = kv_get (''user:'' @ uid) s
           in (json_response 200 [(''user'', map_option JObj user)], s)))"

definition put_my_profile :: "env \<Rightarrow> request \<Rightarrow> kv \<Rightarrow> response \<times> kv" where
  "put_my_profile e r s =
     (case authenticate e r of
        None \<Rightarrow> (unauthorized, s)
      | Some uid \<Rightarrow>
          (case kv_get (''user:'' @ uid) s of
             None \<Rightarrow> (error_response 404 ''User not found'', s)
           | Some user \<Rightarrow> catch500 ''Failed to update profile'' s
               (case body_props r of
                  Inl x \<Rightarrow> Inl x
                | Inr body \<Rightarrow> Inr
                   (let updatedUser = spread_with user
                          [(''name'', js_or (map_of body ''name'') (map_of user ''name'')),
                           (''bio'', if_defined (map_of body ''bio'') (map_of user ''bio'')),
                           (''updatedAt'', Some (JStr (now e)))]
                    in (json_response 200
                          [(''success'', Some (JBool True)), (''user'', Some (JObj updatedUser))],
                        kv_set (''user:'' @ uid) updatedUser s)))))"

section \<open>The application: routes and reachable stores\<close>

datatype route =
    Signup
  | GetBooks
  | GetCollections
  | GetUserCollections string
  | GetCollectionBooks string
  | GetMyBooks
  | GetMyCollections
  | PostMyCollections
  | PostMyBooks
  | PutMyBook string
  | DeleteMyBook string
  | DeleteMyCollection string
  | GetMyProfile
  | PutMyProfile

fun app :: "env \<Rightarrow> route \<Rightarrow> request \<Rightarrow> kv \<Rightarrow> response \<times> kv" where
  "app e Signup r s = signup e r s"
| "app e GetBooks r s = get_books s"
| "app e GetCollections r s = get_collections s"
| "app e (GetUserCollections uid) r s = get_user_collections uid s"
| "app e (GetCollectionBooks cid) r s = get_collection_books cid s"
| "app e GetMyBooks r s = get_my_books e r s"
| "app e GetMyCollections r s = get_my_collections e r s"
| "app e PostMyCollections r s = post_my_collections e r s"
| "app e PostMyBooks r s = post_my_books e r s"
| "app e (PutMyBook bid) r s = put_my_book e bid r s"
| "app e (DeleteMyBook bid) r s = delete_my_book e bid r s"
| "app e (DeleteMyCollection cid) r s = delete_my_collection e cid r s"
| "app e GetMyProfile r s = get_my_profile e r s"
| "app e PutMyProfile r s = put_my_profile e r s"

text \<open>The routes under \<^verbatim>\<open>/my/\<close>.\<close>

fun is_my :: "route \<Rightarrow> bool" where
  "is_my Signup = False"
| "is_my GetBooks = False"
| "is_my GetCollections = False"
| "is_my (GetUserCollections uid) = False"
| "is_my (GetCollectionBooks cid) = False"
| "is_my rt = True"

text \<open>The stores the server can reach from the empty store, one request at a time.\<close>

inductive reachable :: "kv \<Rightarrow> bool" where
  reachable_init: "reachable []"
| reachable_step: "reachable s \<Longrightarrow> reachable (snd (app e rt r s))"

section \<open>A scenario with two users\<close>

text \<open>
  The identity provider knows two tokens, of users A and B, and rejects every other one.
  User A signs up, each user creates a collection, user A adds a book to that collection
  and then moves it. In another course of events user A, after creating the collection,
  sends the number \<^verbatim>\<open>1e400\<close> as the new name of the profile.
\<close>

definition provider :: "string option \<Rightarrow> getUser_reply" where
  "provider tok =
     (if tok = Some ''tokenA'' then \<lparr>reply_error = None, reply_user = Some ''userA''\<rparr>
      else if tok = Some ''tokenB'' then \<lparr>reply_error = None, reply_user = Some ''userB''\<rparr>
      else \<lparr>reply_error = Some ''invalid JWT'', reply_user = None\<rparr>)"

definition registrar :: "json option \<Rightarrow> json option \<Rightarrow> json option \<Rightarrow> createUser_reply" where
  "registrar email password name =
     (if email = Some (JStr ''a@example.org'') then Created ''userA'' (JObj [(''id'', JStr ''userA'')])
      else CreateFailed (Some (JStr ''User not allowed'')))"

definition env_with :: "string \<Rightarrow> env" where
  "env_with i = \<lparr>getUser = provider, createUser = registrar, generateId = i,
                 now = ''2024-01-01T00:00:00.000Z''\<rparr>"

definition bearer :: "string \<Rightarrow> (string \<times> json) list \<Rightarrow> request" where
  "bearer tok b = \<lparr>authorization = Some (''Bearer '' @ tok), json_body = Some (JObj b)\<rparr>"

definition anonymous :: "(string \<times> json) list \<Rightarrow> request" where
  "anonymous b = \<lparr>authorization = None, json_body = Some (JObj b)\<rparr>"

definition store_signup :: kv where
  "store_signup = snd (app (env_with ''0-z'') Signup
      (anonymous [(''email'', JStr ''a@example.org''), (''password'', JStr ''secret''),
                  (''name'', JStr ''Ann'')]) [])"

definition store_colA :: kv where
  "store_colA = snd (app (env_with ''1-a'') PostMyCollections
      (bearer ''tokenA'' [(''name'', JStr ''Sci-Fi'')]) store_signup)"

definition store_colB :: kv where
  "store_colB = snd (app (env_with ''2-b'') PostMyCollections
      (bearer ''tokenB'' [(''name'', JStr ''Poetry'')]) store_colA)"

definition store_book :: kv where
  "store_book = snd (app (env_with ''3-c'') PostMyBooks
      (bearer ''tokenA'' [(''title'', JStr ''Dune''), (''collectionId'', JStr ''1-a'')]) store_colB)"

definition store_moved :: kv where
  "store_moved = snd (app (env_with ''4-d'') (PutMyBook ''3-c'')
      (bearer ''tokenA'' [(''collectionId'', JStr ''2-b'')]) store_book)"

definition store_renamed :: kv where
  "store_renamed = snd (app (env_with ''6-f'') PutMyProfile
      (bearer ''tokenA'' [(''name'', JNum ''Infinity'')]) store_colA)"

definition dune :: obj where
  "dune = [(''id'', JStr ''3-c''), (''title'', JStr ''Dune''), (''author'', JStr []),
           (''description'', JStr []), (''coverImage'', JStr []), (''collectionId'', JStr ''1-a''),
           (''userId'', JStr ''userA''), (''createdAt'', JStr ''2024-01-01T00:00:00.000Z'')]"

definition sci_fi :: obj where
  "sci_fi = [(''id'', JStr ''1-a''), (''name'', JStr ''Sci-Fi''), (''description'', JStr []),
             (''userId'', JStr ''userA''), (''createdAt'', JStr ''2024-01-01T00:00:00.000Z'')]"

section \<open>Properties of stores\<close>

text \<open>
  Every book's owner is the owner of the collection its \<^verbatim>\<open>collectionId\<close> names: the
  collection exists and has the book's \<^verbatim>\<open>userId\<close>.
\<close>

definition book_owner_inv :: "kv \<Rightarrow> bool" where
  "book_owner_inv s =
     list_all (\<lambda>(k, book).
        if startsWith k ''book:'' then
          (case kv_get (''collection:'' @ template (map_of book ''collectionId'')) s of
             None \<Rightarrow> False
           | Some collection \<Rightarrow> map_of collection ''userId'' = map_of book ''userId'')
        else True) s"

text \<open>
  What every handler keeps true of the entries it writes: a book is stored under the key
  of its own \<^verbatim>\<open>id\<close>, and the \<^verbatim>\<open>name\<close> of a user record is truthy or \<^verbatim>\<open>null\<close>. No key
  occurs twice in the table.
\<close>

definition entry_ok :: "string \<Rightarrow> obj \<Rightarrow> bool" where
  "entry_ok k v =
     ((startsWith k ''book:'' \<longrightarrow> map_of v ''id'' = Some (JStr (drop (length ''book:'') k))) \<and>
      (startsWith k ''user:'' \<longrightarrow>
         js_truthy (map_of v ''name'') \<or> map_of v ''name'' = Some JNull))"

definition store_ok :: "kv \<Rightarrow> bool" where
  "store_ok s = (distinct (map fst s) \<and> (\<forall>(k, v) \<in> set s. entry_ok k v))"

section \<open>Objects, the store and authentication\<close>

lemma serialise_idem [simp]: "serialise (serialise j) = serialise j"
  by (induction j) (auto simp: prod.map_comp comp_def intro!: prod.map_cong)

lemma serialise_obj_idem [simp]: "serialise_obj (serialise_obj ob) = serialise_obj ob"
  unfolding serialise_obj_def by (induction ob) auto

lemma map_of_serialise_obj:
  "map_of (serialise_obj ob) k = map_option serialise (map_of ob k)"
  unfolding serialise_obj_def by (induction ob) auto

lemma serialise_eq_JStr [simp]: "serialise j = JStr c \<longleftrightarrow> j = JStr c"
  by (cases j) (auto split: if_splits)

lemma truthy_serialise: "truthy j \<Longrightarrow> truthy (serialise j) \<or> serialise j = JNull"
  by (cases j) auto

lemma serialise_obj_set_prop:
  "serialise_obj (set_prop k v ob) = set_prop k (map_option serialise v) (serialise_obj ob)"
proof (cases v)
  case None
  have "map (map_prod id serialise) (AList.delete k ob) =
      AList.delete k (map (map_prod id serialise) ob)"
    by (induction ob) auto
  then show ?thesis
    using None by (simp add: set_prop_def serialise_obj_def)
next
  case (Some j)
  have "map (map_prod id serialise) (AList.update k j ob) =
      AList.update k (serialise j) (map (map_prod id serialise) ob)"
    by (induction ob) auto
  then show ?thesis
    using Some by (simp add: set_prop_def serialise_obj_def)
qed

lemma serialise_obj_spread_with:
  "serialise_obj (spread_with ob kvs) =
     spread_with (serialise_obj ob) (map (map_prod id (map_option serialise)) kvs)"
  unfolding spread_with_def
  by (induction kvs arbitrary: ob) (auto simp: serialise_obj_set_prop)

lemma map_of_set_prop:
  "map_of (set_prop k v ob) k' = (if k' = k then v else map_of ob k')"
  by (cases v) (simp_all add: set_prop_def AList.update_conv' AList.delete_conv')

lemma map_of_spread_with:
  "k \<notin> fst ` set kvs \<Longrightarrow> map_of (spread_with ob kvs) k = map_of ob k"
  unfolding spread_with_def
  by (induction kvs arbitrary: ob) (auto simp: map_of_set_prop)

lemma map_of_override:
  "map_of (spread_with ob [(k1, v1), (k2, v2), (k3, v3), (k4, v4), (k5, v5), (k6, v6)]) k =
    (if k = k6 then v6 else if k = k5 then v5 else if k = k4 then v4 else if k = k3 then v3
     else if k = k2 then v2 else if k = k1 then v1 else map_of ob k)"
  by (simp add: spread_with_def map_of_set_prop)

lemma map_of_object3:
  "map_of (object [(k1, v1), (k2, v2), (k3, v3)]) k =
    (if k = k3 then v3 else if k = k2 then v2 else if k = k1 then v1 else None)"
  by (simp add: object_def spread_with_def map_of_set_prop)

lemma map_of_object8:
  "map_of (object [(k1, v1), (k2, v2), (k3, v3), (k4, v4), (k5, v5), (k6, v6), (k7, v7), (k8, v8)]) k =
    (if k = k8 then v8 else if k = k7 then v7 else if k = k6 then v6 else if k = k5 then v5
     else if k = k4 then v4 else if k = k3 then v3 else if k = k2 then v2
     else if k = k1 then v1 else None)"
  by (simp add: object_def spread_with_def map_of_set_prop)

lemma startsWith_split: "startsWith s p \<Longrightarrow> s = p @ drop (length p) s"
  by (metis append_take_drop_id startsWith_def)

lemma kv_get_set:
  "kv_get k (kv_set k' v s) = (if k = k' then Some (serialise_obj v) else kv_get k s)"
  by (simp add: kv_get_def kv_set_def AList.update_conv')

lemma kv_get_del: "kv_get k (kv_del k' s) = (if k = k' then None else kv_get k s)"
  by (simp add: kv_get_def kv_del_def AList.delete_conv')

lemma kv_get_clean: "kv_get k s = Some v \<Longrightarrow> serialise_obj v = v"
  by (auto simp: kv_get_def)

lemma kv_get_lookup_clean:
  "kv_get k s = Some v \<Longrightarrow> map_option serialise (map_of v k') = map_of v k'"
  using kv_get_clean [of k s v] map_of_serialise_obj [of v k'] by simp

lemma kv_set_serialise [simp]: "kv_set k (serialise_obj v) s = kv_set k v s"
  by (simp add: kv_set_def)

lemma kv_get_in_set: "kv_get k s = Some v \<Longrightarrow> \<exists>raw. (k, raw) \<in> set s \<and> v = serialise_obj raw"
  by (auto simp: kv_get_def dest: map_of_SomeD)

lemma in_set_kv_get: "(k, v) \<in> set s \<Longrightarrow> kv_get k s \<noteq> None"
  by (simp add: kv_get_def map_of_eq_None_iff image_iff) force

lemma getByPrefix_set:
  "b \<in> set (kv_getByPrefix p s) \<longleftrightarrow>
     (\<exists>k raw. (k, raw) \<in> set s \<and> startsWith k p \<and> b = serialise_obj raw)"
  by (force simp: kv_getByPrefix_def)

lemma apply_writes_append: "apply_writes (ws @ ws') s = apply_writes ws' (apply_writes ws s)"
  by (simp add: apply_writes_def)

text \<open>Deletes commute and repeat without effect: only the set of deleted keys counts.\<close>

lemma apply_dels: "apply_writes (map KvDel ks) s = filter (\<lambda>p. fst p \<notin> set ks) s"
proof (induction ks arbitrary: s)
  case Nil
  show ?case by (simp add: apply_writes_def)
next
  case (Cons k ks)
  have "apply_writes (map KvDel (k # ks)) s = apply_writes (map KvDel ks) (kv_del k s)"
    by (simp add: apply_writes_def)
  also have "\<dots> = filter (\<lambda>p. fst p \<notin> set ks) (filter (\<lambda>p. fst p \<noteq> k) s)"
    by (simp add: Cons.IH kv_del_def AList.delete_eq case_prod_beta) (metis)
  also have "\<dots> = filter (\<lambda>p. fst p \<notin> set (k # ks)) s"
    by (auto intro: filter_cong)
  finally show ?case .
qed

lemma status_error_response [simp]: "status (error_response code msg) = code"
  by (simp add: error_response_def json_response_def)

lemma status_json_response [simp]: "status (json_response code kvs) = code"
  by (simp add: json_response_def)

text \<open>When the opening of a protected handler lets a request through.\<close>

lemma authenticate_Some:
  "authenticate e r = Some uid \<longleftrightarrow>
     (\<exists>h. authorization r = Some h \<and> startsWith h ''Bearer '' \<and>
          reply_error (getUser e (nth_opt (split_space h) 1)) = None \<and>
          reply_user (getUser e (nth_opt (split_space h) 1)) = Some uid \<and> uid \<noteq> [])"
  by (auto simp: authenticate_def verifyUser_def str_truthy_def Let_def
      split: option.splits if_splits)

lemma authenticate_json_body [simp]:
  "authenticate e (r\<lparr>json_body := x\<rparr>) = authenticate e r"
  by (simp add: authenticate_def verifyUser_def)

lemma auth_A: "authenticate (env_with i) (bearer ''tokenA'' b) = Some ''userA''"
  by (simp add: authenticate_Some env_with_def bearer_def startsWith_def provider_def)

lemma auth_B: "authenticate (env_with i) (bearer ''tokenB'' b) = Some ''userB''"
  by (simp add: authenticate_Some env_with_def bearer_def startsWith_def provider_def)

section \<open>What every reachable store satisfies\<close>

lemma entry_ok_serialise: "entry_ok k v \<Longrightarrow> entry_ok k (serialise_obj v)"
  using truthy_serialise
  by (auto simp: entry_ok_def map_of_serialise_obj js_truthy_def split: option.splits)

lemma store_ok_set:
  assumes "store_ok s" and "entry_ok k v"
  shows "store_ok (kv_set k v s)"
proof -
  have "p = (k, serialise_obj v) \<or> p \<in> set s" if "p \<in> set (AList.update k (serialise_obj v) s)" for p
    using that by (induction s) (auto split: if_splits)
  then show ?thesis
    using assms entry_ok_serialise [OF assms(2)]
    unfolding store_ok_def kv_set_def by (fastforce simp: AList.distinct_update)
qed

lemma store_ok_filter: "store_ok s \<Longrightarrow> store_ok (filter P s)"
  by (auto simp: store_ok_def distinct_map_filter)

lemma store_ok_del: "store_ok s \<Longrightarrow> store_ok (kv_del k s)"
  by (simp add: kv_del_def AList.delete_eq store_ok_filter)

lemma store_ok_get: "store_ok s \<Longrightarrow> kv_get k s = Some v \<Longrightarrow> entry_ok k v"
  unfolding store_ok_def using kv_get_in_set entry_ok_serialise by fastforce

lemma store_ok_signup: "store_ok s \<Longrightarrow> store_ok (snd (signup e r s))"
  by (auto simp: signup_def catch500_def Let_def entry_ok_def startsWith_def map_of_object3
      intro!: store_ok_set split: sum.splits createUser_reply.splits)

lemma store_ok_post_my_collections: "store_ok s \<Longrightarrow> store_ok (snd (post_my_collections e r s))"
  by (auto simp: post_my_collections_def catch500_def Let_def entry_ok_def startsWith_def
      intro!: store_ok_set split: sum.splits option.splits)

lemma store_ok_post_my_books: "store_ok s \<Longrightarrow> store_ok (snd (post_my_books e r s))"
  by (auto simp: post_my_books_def catch500_def Let_def entry_ok_def startsWith_def map_of_object8
      intro!: store_ok_set split: sum.splits option.splits)

lemma store_ok_put_my_book:
  assumes "store_ok s"
  shows "store_ok (snd (put_my_book e bid r s))"
proof -
  have "entry_ok (''book:'' @ bid) (spread_with old kvs)"
    if "kv_get (''book:'' @ bid) s = Some old" and "''id'' \<notin> fst ` set kvs" for old kvs
    using store_ok_get [OF assms that(1)] that(2)
    by (simp add: entry_ok_def startsWith_def map_of_spread_with)
  then show ?thesis
    using assms
    by (auto simp: put_my_book_def catch500_def Let_def
        intro!: store_ok_set split: sum.splits option.splits)
qed

lemma store_ok_put_my_profile:
  assumes "store_ok s"
  shows "store_ok (snd (put_my_profile e r s))"
proof -
  have "entry_ok (''user:'' @ uid)
          (spread_with old [(''name'', js_or v (map_of old ''name'')), (k2, v2), (''updatedAt'', v3)])"
    if "kv_get (''user:'' @ uid) s = Some old" and "k2 = ''bio''" for old uid v k2 v2 v3
    using store_ok_get [OF assms that(1)] that(2)
    by (simp add: entry_ok_def startsWith_def spread_with_def map_of_set_prop js_or_def)
  then show ?thesis
    using assms
    by (auto simp: put_my_profile_def catch500_def Let_def
        intro!: store_ok_set split: sum.splits option.splits)
qed

lemma store_ok_delete_my_book: "store_ok s \<Longrightarrow> store_ok (snd (delete_my_book e bid r s))"
  by (auto simp: delete_my_book_def intro: store_ok_del split: option.splits)

lemma store_ok_apply_dels: "store_ok s \<Longrightarrow> store_ok (apply_writes (map KvDel ks) s)"
  by (simp add: apply_dels store_ok_filter)

lemma store_ok_delete_my_collection:
  assumes "store_ok s"
  shows "store_ok (snd (delete_my_collection e cid r s))"
proof -
  have "store_ok (apply_writes (map (\<lambda>x. KvDel (f x)) xs @ [KvDel k]) s)" for f xs k
    using store_ok_apply_dels [OF assms, of "map f xs @ [k]"] by (simp add: comp_def)
  moreover have "store_ok (apply_writes [] s)"
    using assms by (simp add: apply_writes_def)
  ultimately show ?thesis
    by (auto simp: delete_my_collection_def delete_my_collection_run_def Let_def
        split: option.splits)
qed

lemma store_ok_app: "store_ok s \<Longrightarrow> store_ok (snd (app e rt r s))"
  by (cases rt)
    (simp_all add: store_ok_signup store_ok_post_my_collections store_ok_post_my_books
      store_ok_put_my_book store_ok_put_my_profile store_ok_delete_my_book
      store_ok_delete_my_collection get_books_def get_collections_def get_user_collections_def
      get_collection_books_def get_my_books_def get_my_collections_def get_my_profile_def Let_def
      split: option.splits)

lemma reachable_store_ok: "reachable s \<Longrightarrow> store_ok s"
proof (induction rule: reachable.induct)
  case reachable_init
  show ?case by (simp add: store_ok_def)
next
  case (reachable_step s e rt r)
  then show ?case by (simp add: store_ok_app)
qed

section \<open>The scenario's stores\<close>

lemma reachable_store_signup: "reachable store_signup"
  unfolding store_signup_def by (rule reachable_step [OF reachable_init])

lemma reachable_store_colA: "reachable store_colA"
  unfolding store_colA_def by (rule reachable_step [OF reachable_store_signup])

lemma reachable_store_colB: "reachable store_colB"
  unfolding store_colB_def by (rule reachable_step [OF reachable_store_colA])

lemma reachable_store_book: "reachable store_book"
  unfolding store_book_def by (rule reachable_step [OF reachable_store_colB])

lemma reachable_store_moved: "reachable store_moved"
  unfolding store_moved_def by (rule reachable_step [OF reachable_store_book])

lemma reachable_store_renamed: "reachable store_renamed"
  unfolding store_renamed_def by (rule reachable_step [OF reachable_store_colA])

lemma store_book_dune: "kv_get (''book:'' @ ''3-c'') store_book = Some dune"
  by code_simp

lemma store_book_sci_fi: "kv_get (''collection:'' @ ''1-a'') store_book = Some sci_fi"
  by code_simp


section \<open>Creating a book in a collection of somebody else\<close>




section \<open>The owner of a book and the owner of its collection\<close>

text \<open>
  Creation checks the owner of the collection: a book that \<^verbatim>\<open>POST /my/books\<close> has stored
  for a body that names its collection by a string names a collection with the book's own
  \<^verbatim>\<open>userId\<close>.
\<close>

lemma post_my_books_checks_owner:
  assumes "app e PostMyBooks r s = (resp, s')" and "status resp = 200"
    and "json_body r = Some (JObj b)" and "map_of b ''collectionId'' = Some (JStr cid)"
  shows "\<exists>book c. kv_get (''book:'' @ generateId e) s' = Some book \<and>
           map_of book ''collectionId'' = Some (JStr cid) \<and>
           kv_get (''collection:'' @ cid) s' = Some c \<and>
           map_of c ''userId'' = map_of book ''userId''"
  using assms
  by (auto simp: post_my_books_def unauthorized_def catch500_def kv_get_set map_of_object8
      map_of_serialise_obj body_props_def props_def template_def
      strict_eq_def Let_def split: option.splits if_splits sum.splits)

text \<open>
  Claim C2. The claim is that in every reachable store each book has the \<^verbatim>\<open>userId\<close> of
  the collection its \<^verbatim>\<open>collectionId\<close> names. Creation checks this, the update of a book
  does not: after user A has moved the book to the collection of user B, a reachable store
  holds a book of user A in a collection of user B.
\<close>

theorem put_my_book_breaks_book_owner:
  "reachable store_moved \<and> book_owner_inv store_book \<and> \<not> book_owner_inv store_moved \<and>
   status (fst (app (env_with ''4-d'') (PutMyBook ''3-c'')
     (bearer ''tokenA'' [(''collectionId'', JStr ''2-b'')]) store_book)) = 200 \<and>
   kv_get ''book:3-c'' store_moved =
     Some [(''id'', JStr ''3-c''), (''title'', JStr ''Dune''), (''author'', JStr []),
           (''description'', JStr []), (''coverImage'', JStr []), (''collectionId'', JStr ''2-b''),
           (''userId'', JStr ''userA''), (''createdAt'', JStr ''2024-01-01T00:00:00.000Z''),
           (''updatedAt'', JStr ''2024-01-01T00:00:00.000Z'')] \<and>
   map_option (\<lambda>c. map_of c ''userId'') (kv_get ''collection:2-b'' store_moved) =
     Some (Some (JStr ''userB''))"
proof -
  have "book_owner_inv store_book"
    by code_simp
  moreover have "\<not> book_owner_inv store_moved"
    by code_simp
  moreover have "status (fst (app (env_with ''4-d'') (PutMyBook ''3-c'')
     (bearer ''tokenA'' [(''collectionId'', JStr ''2-b'')]) store_book)) = 200"
    by code_simp
  moreover have "kv_get ''book:3-c'' store_moved =
     Some [(''id'', JStr ''3-c''), (''title'', JStr ''Dune''), (''author'', JStr []),
           (''description'', JStr []), (''coverImage'', JStr []), (''collectionId'', JStr ''2-b''),
           (''userId'', JStr ''userA''), (''createdAt'', JStr ''2024-01-01T00:00:00.000Z''),
           (''updatedAt'', JStr ''2024-01-01T00:00:00.000Z'')]"
    by code_simp
  moreover have "map_option (\<lambda>c. map_of c ''userId'') (kv_get ''collection:2-b'' store_moved) =
     Some (Some (JStr ''userB''))"
    by code_simp
  ultimately show ?thesis
    using reachable_store_moved by simp
qed

section \<open>Updating a book\<close>

lemma json_response_book:
  "json_response code [(''success'', Some (JBool True)), (''book'', Some (JObj (serialise_obj ob)))] =
   json_response code [(''success'', Some (JBool True)), (''book'', Some (JObj ob))]"
  using serialise_obj_idem [of ob]
  by (simp add: json_response_def object_def spread_with_def set_prop_def serialise_obj_def)

text \<open>
  Claim C3. For a book the caller owns, \<^verbatim>\<open>PUT /my/books/:id\<close> with a JSON object as body
  stores and returns the merged book and stamps \<^verbatim>\<open>updatedAt\<close>. The merge is per field.
  For \<^verbatim>\<open>title\<close> and \<^verbatim>\<open>collectionId\<close> a truthy supplied value replaces the old one and a
  falsy or missing one keeps it: an empty string is ignored. For \<^verbatim>\<open>author\<close>,
  \<^verbatim>\<open>description\<close> and \<^verbatim>\<open>coverImage\<close> every supplied value replaces the old one, the empty
  string too, and a missing one keeps it. Every other field is kept. A supplied value is
  stored as it is serialised; a string is stored as it is. A body holding only a
  description leaves \<^verbatim>\<open>title\<close>, \<^verbatim>\<open>author\<close>, \<^verbatim>\<open>coverImage\<close> and \<^verbatim>\<open>collectionId\<close> as they were.
\<close>

theorem put_my_book_merge:
  assumes "authenticate e r = Some uid"
    and "kv_get (''book:'' @ bid) s = Some old"
    and "map_of old ''userId'' = Some (JStr uid)"
    and "json_body r = Some (JObj b)"
  shows "\<exists>new. app e (PutMyBook bid) r s =
             (json_response 200 [(''success'', Some (JBool True)), (''book'', Some (JObj new))],
              kv_set (''book:'' @ bid) new s) \<and>
           kv_get (''book:'' @ bid) (kv_set (''book:'' @ bid) new s) = Some new \<and>
           map_of new ''title'' =
             (if js_truthy (map_of b ''title'') then map_option serialise (map_of b ''title'')
              else map_of old ''title'') \<and>
           map_of new ''collectionId'' =
             (if js_truthy (map_of b ''collectionId'')
              then map_option serialise (map_of b ''collectionId'')
              else map_of old ''collectionId'') \<and>
           map_of new ''author'' =
             (case map_of b ''author'' of
                None \<Rightarrow> map_of old ''author'' | Some v \<Rightarrow> Some (serialise v)) \<and>
           map_of new ''description'' =
             (case map_of b ''description'' of
                None \<Rightarrow> map_of old ''description'' | Some v \<Rightarrow> Some (serialise v)) \<and>
           map_of new ''coverImage'' =
             (case map_of b ''coverImage'' of
                None \<Rightarrow> map_of old ''coverImage'' | Some v \<Rightarrow> Some (serialise v)) \<and>
           map_of new ''updatedAt'' = Some (JStr (now e)) \<and>
           (\<forall>k. k \<notin> {''title'', ''author'', ''description'', ''coverImage'', ''collectionId'',
                      ''updatedAt''} \<longrightarrow> map_of new k = map_of old k) \<and>
           (\<forall>t. map_of b ''title'' = Some (JStr t) \<longrightarrow>
              map_of new ''title'' = (if t = [] then map_of old ''title'' else Some (JStr t))) \<and>
           (\<forall>t. map_of b ''collectionId'' = Some (JStr t) \<longrightarrow>
              map_of new ''collectionId'' =
                (if t = [] then map_of old ''collectionId'' else Some (JStr t))) \<and>
           (\<forall>t. map_of b ''author'' = Some (JStr t) \<longrightarrow> map_of new ''author'' = Some (JStr t)) \<and>
           (\<forall>t. map_of b ''description'' = Some (JStr t) \<longrightarrow>
              map_of new ''description'' = Some (JStr t)) \<and>
           (\<forall>t. map_of b ''coverImage'' = Some (JStr t) \<longrightarrow>
              map_of new ''coverImage'' = Some (JStr t)) \<and>
           (b = [(''description'', JStr d)] \<longrightarrow>
              map_of new ''title'' = map_of old ''title'' \<and>
              map_of new ''author'' = map_of old ''author'' \<and>
              map_of new ''coverImage'' = map_of old ''coverImage'' \<and>
              map_of new ''collectionId'' = map_of old ''collectionId'' \<and>
              map_of new ''description'' = Some (JStr d))"
proof -
  define merged where "merged = spread_with old
     [(''title'', js_or (map_of b ''title'') (map_of old ''title'')),
      (''author'', if_defined (map_of b ''author'') (map_of old ''author'')),
      (''description'', if_defined (map_of b ''description'') (map_of old ''description'')),
      (''coverImage'', if_defined (map_of b ''coverImage'') (map_of old ''coverImage'')),
      (''collectionId'', js_or (map_of b ''collectionId'') (map_of old ''collectionId'')),
      (''updatedAt'', Some (JStr (now e)))]"
  define new where "new = serialise_obj merged"
  have clean: "map_option serialise (map_of old k) = map_of old k" for k
    using assms(2) by (rule kv_get_lookup_clean)
  have "app e (PutMyBook bid) r s =
      (json_response 200 [(''success'', Some (JBool True)), (''book'', Some (JObj merged))],
       kv_set (''book:'' @ bid) merged s)"
    using assms
    by (simp add: put_my_book_def strict_eq_def body_props_def props_def catch500_def merged_def
        Let_def)
  then have run: "app e (PutMyBook bid) r s =
      (json_response 200 [(''success'', Some (JBool True)), (''book'', Some (JObj new))],
       kv_set (''book:'' @ bid) new s)"
    by (simp add: new_def json_response_book)
  have stored: "kv_get (''book:'' @ bid) (kv_set (''book:'' @ bid) new s) = Some new"
    by (simp add: kv_get_set new_def)
  have look: "map_of new k = map_option serialise (map_of merged k)" for k
    by (simp add: new_def map_of_serialise_obj)
  have title: "map_of new ''title'' =
      (if js_truthy (map_of b ''title'') then map_option serialise (map_of b ''title'')
       else map_of old ''title'')"
    and collectionId: "map_of new ''collectionId'' =
      (if js_truthy (map_of b ''collectionId'') then map_option serialise (map_of b ''collectionId'')
       else map_of old ''collectionId'')"
    by (simp_all add: look merged_def map_of_override js_or_def clean)
  have author: "map_of new ''author'' =
      (case map_of b ''author'' of None \<Rightarrow> map_of old ''author'' | Some v \<Rightarrow> Some (serialise v))"
    and description: "map_of new ''description'' =
      (case map_of b ''description'' of
         None \<Rightarrow> map_of old ''description'' | Some v \<Rightarrow> Some (serialise v))"
    and coverImage: "map_of new ''coverImage'' =
      (case map_of b ''coverImage'' of
         None \<Rightarrow> map_of old ''coverImage'' | Some v \<Rightarrow> Some (serialise v))"
    by (simp_all add: look merged_def map_of_override if_defined_def clean split: option.splits)
  have updatedAt: "map_of new ''updatedAt'' = Some (JStr (now e))"
    by (simp add: look merged_def map_of_override)
  have others: "\<forall>k. k \<notin> {''title'', ''author'', ''description'', ''coverImage'', ''collectionId'',
      ''updatedAt''} \<longrightarrow> map_of new k = map_of old k"
    by (simp add: look merged_def map_of_override clean)
  have title_str: "\<forall>t. map_of b ''title'' = Some (JStr t) \<longrightarrow>
      map_of new ''title'' = (if t = [] then map_of old ''title'' else Some (JStr t))"
    and collectionId_str: "\<forall>t. map_of b ''collectionId'' = Some (JStr t) \<longrightarrow>
      map_of new ''collectionId'' = (if t = [] then map_of old ''collectionId'' else Some (JStr t))"
    by (simp_all add: title collectionId js_truthy_def)
  have author_str: "\<forall>t. map_of b ''author'' = Some (JStr t) \<longrightarrow> map_of new ''author'' = Some (JStr t)"
    and description_str: "\<forall>t. map_of b ''description'' = Some (JStr t) \<longrightarrow>
      map_of new ''description'' = Some (JStr t)"
    and coverImage_str: "\<forall>t. map_of b ''coverImage'' = Some (JStr t) \<longrightarrow>
      map_of new ''coverImage'' = Some (JStr t)"
    by (simp_all add: author description coverImage)
  have only_description: "b = [(''description'', JStr d)] \<longrightarrow>
      map_of new ''title'' = map_of old ''title'' \<and>
      map_of new ''author'' = map_of old ''author'' \<and>
      map_of new ''coverImage'' = map_of old ''coverImage'' \<and>
      map_of new ''collectionId'' = map_of old ''collectionId'' \<and>
      map_of new ''description'' = Some (JStr d)"
    by (simp add: title author description coverImage collectionId js_truthy_def)
  show ?thesis
    by (intro exI [of _ new] conjI)
      (rule run stored title collectionId author description coverImage updatedAt others
        title_str collectionId_str author_str description_str coverImage_str only_description)+
qed

text \<open>
  User A sends only a description; then a new title, author, cover and collection; then
  empty strings for a book that has an author: the title and the collection stay, the
  author is emptied.
\<close>

theorem put_my_book_merge_witness:
  "authenticate (env_with ''4-d'') (bearer ''tokenA'' [(''description'', JStr ''new'')]) = Some ''userA'' \<and>
   kv_get ''book:3-c'' store_book = Some dune \<and>
   map_of dune ''userId'' = Some (JStr ''userA'') \<and>
   (\<exists>new. snd (app (env_with ''4-d'') (PutMyBook ''3-c'')
               (bearer ''tokenA'' [(''description'', JStr ''new'')]) store_book) =
             kv_set ''book:3-c'' new store_book \<and>
           map_of new ''title'' = Some (JStr ''Dune'') \<and>
           map_of new ''author'' = Some (JStr []) \<and>
           map_of new ''coverImage'' = Some (JStr []) \<and>
           map_of new ''collectionId'' = Some (JStr ''1-a'') \<and>
           map_of new ''description'' = Some (JStr ''new'') \<and>
           map_of new ''updatedAt'' = Some (JStr ''2024-01-01T00:00:00.000Z'')) \<and>
   (\<exists>new. snd (app (env_with ''4-d'') (PutMyBook ''3-c'')
               (bearer ''tokenA'' [(''title'', JStr ''Emma''), (''author'', JStr ''Austen''),
                                  (''coverImage'', JStr ''x.png''), (''collectionId'', JStr ''1-b'')])
               store_book) =
             kv_set ''book:3-c'' new store_book \<and>
           map_of new ''title'' = Some (JStr ''Emma'') \<and>
           map_of new ''author'' = Some (JStr ''Austen'') \<and>
           map_of new ''coverImage'' = Some (JStr ''x.png'') \<and>
           map_of new ''collectionId'' = Some (JStr ''1-b'') \<and>
           map_of new ''description'' = Some (JStr []) \<and>
           map_of new ''id'' = Some (JStr ''3-c'')) \<and>
   (\<exists>new. snd (app (env_with ''4-d'') (PutMyBook ''3-c'')
               (bearer ''tokenA'' [(''title'', JStr []), (''author'', JStr []),
                                  (''collectionId'', JStr [])])
               (kv_set ''book:3-c'' (AList.update ''author'' (JStr ''Herbert'') dune) store_book)) =
             kv_set ''book:3-c'' new
               (kv_set ''book:3-c'' (AList.update ''author'' (JStr ''Herbert'') dune) store_book) \<and>
           map_of new ''title'' = Some (JStr ''Dune'') \<and>
           map_of new ''collectionId'' = Some (JStr ''1-a'') \<and>
           map_of new ''author'' = Some (JStr []))"
proof -
  let ?b1 = "[(''description'', JStr ''new'')]"
  let ?b2 = "[(''title'', JStr ''Emma''), (''author'', JStr ''Austen''),
              (''coverImage'', JStr ''x.png''), (''collectionId'', JStr ''1-b'')]"
  let ?b3 = "[(''title'', JStr []), (''author'', JStr []), (''collectionId'', JStr [])]"
  let ?old3 = "AList.update ''author'' (JStr ''Herbert'') dune"
  let ?s3 = "kv_set ''book:3-c'' ?old3 store_book"
  have a1: "authenticate (env_with ''4-d'') (bearer ''tokenA'' ?b1) = Some ''userA''"
    and a2: "authenticate (env_with ''4-d'') (bearer ''tokenA'' ?b2) = Some ''userA''"
    and a3: "authenticate (env_with ''4-d'') (bearer ''tokenA'' ?b3) = Some ''userA''"
    by (rule auth_A)+
  have j1: "json_body (bearer ''tokenA'' ?b1) = Some (JObj ?b1)"
    and j2: "json_body (bearer ''tokenA'' ?b2) = Some (JObj ?b2)"
    and j3: "json_body (bearer ''tokenA'' ?b3) = Some (JObj ?b3)"
    by (simp_all add: bearer_def)
  have u1: "map_of dune ''userId'' = Some (JStr ''userA'')"
    and u3: "map_of ?old3 ''userId'' = Some (JStr ''userA'')"
    by (simp_all add: dune_def)
  have g3: "kv_get (''book:'' @ ''3-c'') ?s3 = Some ?old3"
    by (simp add: kv_get_set dune_def serialise_obj_def)
  have first: "\<exists>new. snd (app (env_with ''4-d'') (PutMyBook ''3-c'') (bearer ''tokenA'' ?b1) store_book) =
             kv_set ''book:3-c'' new store_book \<and>
           map_of new ''title'' = Some (JStr ''Dune'') \<and>
           map_of new ''author'' = Some (JStr []) \<and>
           map_of new ''coverImage'' = Some (JStr []) \<and>
           map_of new ''collectionId'' = Some (JStr ''1-a'') \<and>
           map_of new ''description'' = Some (JStr ''new'') \<and>
           map_of new ''updatedAt'' = Some (JStr ''2024-01-01T00:00:00.000Z'')"
    using put_my_book_merge [OF a1 store_book_dune u1 j1, of "''new''"]
    apply (elim exE conjE)
    subgoal for new
      by (rule exI [of _ new]) (simp add: dune_def env_with_def js_truthy_def)
    done
  have second: "\<exists>new. snd (app (env_with ''4-d'') (PutMyBook ''3-c'') (bearer ''tokenA'' ?b2) store_book) =
             kv_set ''book:3-c'' new store_book \<and>
           map_of new ''title'' = Some (JStr ''Emma'') \<and>
           map_of new ''author'' = Some (JStr ''Austen'') \<and>
           map_of new ''coverImage'' = Some (JStr ''x.png'') \<and>
           map_of new ''collectionId'' = Some (JStr ''1-b'') \<and>
           map_of new ''description'' = Some (JStr []) \<and>
           map_of new ''id'' = Some (JStr ''3-c'')"
    using put_my_book_merge [OF a2 store_book_dune u1 j2, of "''new''"]
    apply (elim exE conjE)
    subgoal for new
      by (rule exI [of _ new]) (simp add: dune_def js_truthy_def)
    done
  have third: "\<exists>new. snd (app (env_with ''4-d'') (PutMyBook ''3-c'') (bearer ''tokenA'' ?b3) ?s3) =
             kv_set ''book:3-c'' new ?s3 \<and>
           map_of new ''title'' = Some (JStr ''Dune'') \<and>
           map_of new ''collectionId'' = Some (JStr ''1-a'') \<and>
           map_of new ''author'' = Some (JStr [])"
    using put_my_book_merge [OF a3 g3 u3 j3, of "''new''"]
    apply (elim exE conjE)
    subgoal for new
      by (rule exI [of _ new]) (simp add: dune_def js_truthy_def)
    done
  show ?thesis
    using a1 store_book_dune u1 first second third by simp
qed

section \<open>Deleting a collection\<close>

lemma map_of_filter_keys:
  "map_of (filter (\<lambda>p. fst p \<notin> K) s) k = (if k \<in> K then None else map_of s k)"
  by (induction s) auto

lemma kv_get_apply_dels:
  "kv_get k (apply_writes (map KvDel ks) s) = (if k \<in> set ks then None else kv_get k s)"
  by (simp add: apply_dels kv_get_def map_of_filter_keys)

text \<open>
  Claim C4. When the owner of a collection deletes it, in any reachable store, the answer
  is a success and the writes of the request are the deletes of books followed by the
  delete of the collection, which is the last write. Every book whose \<^verbatim>\<open>collectionId\<close>
  is the id of the collection has its delete among those before the last, so that in the
  store that the delete of the collection meets these books are gone and the collection
  is still there. Whatever the order in which the deletes of the books reach the store,
  the store after the request is the same: the store before it without the collection and
  without the books of the collection, and with every other record as it was.
\<close>

theorem delete_my_collection_cascade:
  assumes "reachable s" and "authenticate e r = Some uid"
    and "kv_get (''collection:'' @ cid) s = Some c"
    and "map_of c ''userId'' = Some (JStr uid)"
  shows "\<exists>ks s'.
           delete_my_collection_run e cid r s =
             (json_response 200 [(''success'', Some (JBool True))],
              map KvDel ks @ [KvDel (''collection:'' @ cid)]) \<and>
           app e (DeleteMyCollection cid) r s =
             (json_response 200 [(''success'', Some (JBool True))], s') \<and>
           (\<forall>k \<in> set ks. startsWith k ''book:'') \<and>
           (\<forall>(k, b) \<in> set s.
              startsWith k ''book:'' \<and> map_of b ''collectionId'' = Some (JStr cid) \<longrightarrow>
                k \<in> set ks \<and> kv_get k (apply_writes (map KvDel ks) s) = None) \<and>
           kv_get (''collection:'' @ cid) (apply_writes (map KvDel ks) s) = Some c \<and>
           (\<forall>ks'. set ks' = set ks \<longrightarrow>
              apply_writes (map KvDel ks' @ [KvDel (''collection:'' @ cid)]) s = s') \<and>
           s' = filter (\<lambda>(k, b). k \<noteq> ''collection:'' @ cid \<and>
                  \<not> (startsWith k ''book:'' \<and> map_of b ''collectionId'' = Some (JStr cid))) s \<and>
           (\<forall>(k, b) \<in> set s.
              startsWith k ''book:'' \<and> map_of b ''collectionId'' = Some (JStr cid) \<longrightarrow>
                kv_get k s' = None) \<and>
           (\<forall>b \<in> set (kv_getByPrefix ''book:'' s'). map_of b ''collectionId'' \<noteq> Some (JStr cid)) \<and>
           kv_get (''collection:'' @ cid) s' = None"
proof -
  define coll where "coll = ''collection:'' @ cid"
  define key where "key = (\<lambda>book. ''book:'' @ template (map_of book ''id''))"
  define booksToDelete where "booksToDelete =
    filter (\<lambda>book. strict_eq (map_of book ''collectionId'') cid) (kv_getByPrefix ''book:'' s)"
  define ks where "ks = map key booksToDelete"
  define s' where "s' = apply_writes (map KvDel ks @ [KvDel coll]) s"
  have ok: "store_ok s"
    using assms(1) by (rule reachable_store_ok)
  have run: "delete_my_collection_run e cid r s =
      (json_response 200 [(''success'', Some (JBool True))], map KvDel ks @ [KvDel coll])"
    using assms(2-4)
    by (simp add: delete_my_collection_run_def strict_eq_def Let_def ks_def booksToDelete_def
        key_def coll_def comp_def)
  have app: "app e (DeleteMyCollection cid) r s =
      (json_response 200 [(''success'', Some (JBool True))], s')"
    by (simp add: delete_my_collection_def run s'_def)
  have ks_books: "startsWith k ''book:''" if "k \<in> set ks" for k
    using that by (auto simp: ks_def key_def startsWith_def)
  have coll_not_book: "\<not> startsWith coll ''book:''"
    by (simp add: coll_def startsWith_def)
  have coll_ks: "coll \<notin> set ks"
    using ks_books coll_not_book by blast
  have key_raw: "key (serialise_obj raw) = k"
    if "(k, raw) \<in> set s" and "startsWith k ''book:''" for k raw
  proof -
    have "entry_ok k raw"
      using ok that(1) by (auto simp: store_ok_def)
    then have "map_of raw ''id'' = Some (JStr (drop (length ''book:'') k))"
      using that(2) unfolding entry_ok_def by blast
    then have "key (serialise_obj raw) = ''book:'' @ drop (length ''book:'') k"
      by (simp add: key_def template_def map_of_serialise_obj)
    also have "\<dots> = k"
      by (rule startsWith_split [OF that(2), symmetric])
    finally show ?thesis .
  qed
  have in_ks: "k \<in> set ks"
    if "(k, b) \<in> set s" and "startsWith k ''book:''" and "map_of b ''collectionId'' = Some (JStr cid)"
    for k b
  proof -
    have "serialise_obj b \<in> set (kv_getByPrefix ''book:'' s)"
      unfolding getByPrefix_set using that(1,2) by blast
    moreover have "strict_eq (map_of (serialise_obj b) ''collectionId'') cid"
      using that(3) by (simp add: strict_eq_def map_of_serialise_obj)
    ultimately have "serialise_obj b \<in> set booksToDelete"
      by (simp add: booksToDelete_def)
    then have "key (serialise_obj b) \<in> set ks"
      by (simp add: ks_def)
    then show ?thesis
      using key_raw [OF that(1,2)] by simp
  qed
  have of_ks: "startsWith k ''book:'' \<and> map_of v ''collectionId'' = Some (JStr cid)"
    if kmem: "k \<in> set ks" and kv: "(k, v) \<in> set s" for k v
  proof -
    obtain b where b: "b \<in> set booksToDelete" and kb: "k = key b"
      using kmem unfolding ks_def by auto
    have "b \<in> set (kv_getByPrefix ''book:'' s)"
      and eq: "strict_eq (map_of b ''collectionId'') cid"
      using b by (simp_all add: booksToDelete_def)
    then obtain k' raw where raw: "(k', raw) \<in> set s" "startsWith k' ''book:''" "b = serialise_obj raw"
      unfolding getByPrefix_set by blast
    have "k = k'"
      using key_raw [OF raw(1,2)] kb raw(3) by simp
    moreover have "distinct (map fst s)"
      using ok by (simp add: store_ok_def)
    ultimately have "v = raw"
      using kv raw(1) eq_key_imp_eq_value by fastforce
    moreover have "map_of raw ''collectionId'' = Some (JStr cid)"
      using eq raw(3) by (auto simp: strict_eq_def map_of_serialise_obj)
    ultimately show ?thesis
      using ks_books [OF kmem] by simp
  qed
  have s'_filter: "s' = filter (\<lambda>p. fst p \<notin> set (ks @ [coll])) s"
    using apply_dels [of "ks @ [coll]" s] by (simp add: s'_def)
  have any_order: "apply_writes (map KvDel ks' @ [KvDel coll]) s = s'" if "set ks' = set ks" for ks'
    using apply_dels [of "ks' @ [coll]" s] that by (simp add: s'_filter)
  have exact: "s' = filter (\<lambda>(k, b). k \<noteq> coll \<and>
      \<not> (startsWith k ''book:'' \<and> map_of b ''collectionId'' = Some (JStr cid))) s"
    unfolding s'_filter
  proof (rule filter_cong [OF refl])
    fix p
    assume p: "p \<in> set s"
    obtain k v where kv: "p = (k, v)"
      by (cases p)
    show "(fst p \<notin> set (ks @ [coll])) =
        (case p of (k, b) \<Rightarrow> k \<noteq> coll \<and>
           \<not> (startsWith k ''book:'' \<and> map_of b ''collectionId'' = Some (JStr cid)))"
      using in_ks [of k v] of_ks [of k v] p by (auto simp: kv)
  qed
  have get1: "kv_get k (apply_writes (map KvDel ks) s) = (if k \<in> set ks then None else kv_get k s)"
    for k
    by (rule kv_get_apply_dels)
  have get': "kv_get k s' = (if k \<in> set (ks @ [coll]) then None else kv_get k s)" for k
    using kv_get_apply_dels [of k "ks @ [coll]" s] by (simp add: s'_def)
  have coll1: "kv_get coll (apply_writes (map KvDel ks) s) = Some c"
    using assms(3) coll_ks by (simp add: get1 coll_def)
  have coll': "kv_get coll s' = None"
    by (simp add: get')
  have books1: "\<forall>(k, b) \<in> set s.
      startsWith k ''book:'' \<and> map_of b ''collectionId'' = Some (JStr cid) \<longrightarrow>
        k \<in> set ks \<and> kv_get k (apply_writes (map KvDel ks) s) = None"
    using in_ks by (auto simp: get1)
  have books': "\<forall>(k, b) \<in> set s.
      startsWith k ''book:'' \<and> map_of b ''collectionId'' = Some (JStr cid) \<longrightarrow> kv_get k s' = None"
    using in_ks by (auto simp: get')
  have listing: "\<forall>b \<in> set (kv_getByPrefix ''book:'' s'). map_of b ''collectionId'' \<noteq> Some (JStr cid)"
  proof
    fix b
    assume "b \<in> set (kv_getByPrefix ''book:'' s')"
    then obtain k raw where raw: "(k, raw) \<in> set s'" "startsWith k ''book:''" "b = serialise_obj raw"
      unfolding getByPrefix_set by blast
    have "map_of raw ''collectionId'' \<noteq> Some (JStr cid)"
      using raw(1,2) unfolding exact by simp
    then show "map_of b ''collectionId'' \<noteq> Some (JStr cid)"
      by (auto simp: raw(3) map_of_serialise_obj)
  qed
  have order: "\<forall>ks'. set ks' = set ks \<longrightarrow> apply_writes (map KvDel ks' @ [KvDel coll]) s = s'"
    using any_order by simp
  have books_only: "\<forall>k \<in> set ks. startsWith k ''book:''"
    using ks_books by simp
  show ?thesis
    unfolding coll_def [symmetric]
    by (intro exI [of _ ks] exI [of _ s'] conjI)
      (rule run app books_only books1 coll1 order exact books' listing coll')+
qed

text \<open>User A deletes the collection of user A, which holds a book.\<close>

theorem delete_my_collection_cascade_witness:
  "reachable store_book \<and>
   authenticate (env_with ''5-e'') (bearer ''tokenA'' []) = Some ''userA'' \<and>
   kv_get ''collection:1-a'' store_book = Some sci_fi \<and>
   map_of sci_fi ''userId'' = Some (JStr ''userA'') \<and>
   kv_get ''book:3-c'' store_book = Some dune \<and>
   snd (delete_my_collection_run (env_with ''5-e'') ''1-a'' (bearer ''tokenA'' []) store_book) =
     [KvDel ''book:3-c'', KvDel ''collection:1-a''] \<and>
   kv_get ''book:3-c''
     (snd (app (env_with ''5-e'') (DeleteMyCollection ''1-a'') (bearer ''tokenA'' []) store_book)) = None \<and>
   kv_get ''collection:1-a''
     (snd (app (env_with ''5-e'') (DeleteMyCollection ''1-a'') (bearer ''tokenA'' []) store_book)) = None \<and>
   map fst (snd (app (env_with ''5-e'') (DeleteMyCollection ''1-a'') (bearer ''tokenA'' []) store_book)) =
     [''user:userA'', ''collection:2-b'']"
proof -
  have a: "authenticate (env_with ''5-e'') (bearer ''tokenA'' []) = Some ''userA''"
    by (rule auth_A)
  have u: "map_of sci_fi ''userId'' = Some (JStr ''userA'')"
    by (simp add: sci_fi_def)
  have mem: "(''book:3-c'', dune) \<in> set store_book"
    by code_simp
  have pre: "startsWith ''book:3-c'' ''book:'' \<and> map_of dune ''collectionId'' = Some (JStr ''1-a'')"
    by (simp add: startsWith_def dune_def)
  have writes: "snd (delete_my_collection_run (env_with ''5-e'') ''1-a'' (bearer ''tokenA'' []) store_book) =
      [KvDel ''book:3-c'', KvDel ''collection:1-a'']"
    by code_simp
  have keys: "map fst (snd (app (env_with ''5-e'') (DeleteMyCollection ''1-a'') (bearer ''tokenA'' [])
      store_book)) = [''user:userA'', ''collection:2-b'']"
    by code_simp
  obtain ks s' where run: "app (env_with ''5-e'') (DeleteMyCollection ''1-a'') (bearer ''tokenA'' []) store_book =
        (json_response 200 [(''success'', Some (JBool True))], s')"
    and books: "\<forall>(k, b) \<in> set store_book.
        startsWith k ''book:'' \<and> map_of b ''collectionId'' = Some (JStr ''1-a'') \<longrightarrow>
          kv_get k s' = None"
    and coll: "kv_get (''collection:'' @ ''1-a'') s' = None"
    using delete_my_collection_cascade [OF reachable_store_book a store_book_sci_fi u]
    by (elim exE conjE)
  have "kv_get ''book:3-c'' s' = None"
    using books mem pre by fastforce
  then show ?thesis
    using reachable_store_book a store_book_sci_fi u store_book_dune run coll writes keys by simp
qed

section \<open>Requests that are not authenticated\<close>

text \<open>
  Claim C5. A request to a route under \<^verbatim>\<open>/my/\<close> whose Authorization header is absent, does
  not start with \<^verbatim>\<open>Bearer \<close>, or carries a token for which the identity provider reports an
  error or no user, is answered 401 and leaves the store unchanged.
\<close>

theorem my_routes_unauthenticated:
  assumes "is_my rt"
    and "authorization r = None \<or>
         (\<exists>h. authorization r = Some h \<and>
              (\<not> startsWith h ''Bearer '' \<or>
               reply_error (getUser e (nth_opt (split_space h) 1)) \<noteq> None \<or>
               reply_user (getUser e (nth_opt (split_space h) 1)) = None))"
  shows "app e rt r s = (unauthorized, s) \<and> status unauthorized = 401"
proof -
  have a: "authenticate e r = None"
    using assms(2)
    by (auto simp: authenticate_def verifyUser_def str_truthy_def Let_def split: option.splits)
  have "app e rt r s = (unauthorized, s)"
    using assms(1)
    by (cases rt)
      (simp_all add: a get_my_books_def get_my_collections_def post_my_collections_def
        post_my_books_def put_my_book_def delete_my_book_def delete_my_collection_def
        delete_my_collection_run_def apply_writes_def get_my_profile_def put_my_profile_def)
  moreover have "status unauthorized = 401"
    by (simp add: unauthorized_def)
  ultimately show ?thesis by simp
qed

text \<open>A forged token does not delete the collection of user A.\<close>

theorem my_routes_unauthenticated_witness:
  "is_my (DeleteMyCollection ''1-a'') \<and>
   authorization (bearer ''forged'' []) = Some ''Bearer forged'' \<and>
   reply_error (getUser (env_with ''5-e'') (nth_opt (split_space ''Bearer forged'') 1)) =
     Some ''invalid JWT'' \<and>
   app (env_with ''5-e'') (DeleteMyCollection ''1-a'') (bearer ''forged'' []) store_book =
     (unauthorized, store_book) \<and>
   status unauthorized = 401"
proof -
  have rt: "is_my (DeleteMyCollection ''1-a'')"
    by simp
  have h: "authorization (bearer ''forged'' []) = Some ''Bearer forged''"
    by (simp add: bearer_def)
  have rej: "reply_error (getUser (env_with ''5-e'') (nth_opt (split_space ''Bearer forged'') 1)) =
      Some ''invalid JWT''"
    by (simp add: env_with_def provider_def)
  have hyp: "authorization (bearer ''forged'' []) = None \<or>
      (\<exists>h. authorization (bearer ''forged'' []) = Some h \<and>
           (\<not> startsWith h ''Bearer '' \<or>
            reply_error (getUser (env_with ''5-e'') (nth_opt (split_space h) 1)) \<noteq> None \<or>
            reply_user (getUser (env_with ''5-e'') (nth_opt (split_space h) 1)) = None))"
    using h rej by simp
  show ?thesis
    using my_routes_unauthenticated [OF rt hyp, of store_book] rt h rej by simp
qed

section \<open>Books that are absent or owned by somebody else\<close>

text \<open>
  Claim C6. An authenticated \<^verbatim>\<open>PUT\<close> or \<^verbatim>\<open>DELETE\<close> on \<^verbatim>\<open>/my/books/:id\<close> for a book that is
  absent, or whose \<^verbatim>\<open>userId\<close> is not the caller's, is answered with one and the same error
  of status 403, and the store is unchanged.
\<close>

theorem book_missing_or_foreign_403:
  assumes "authenticate e r = Some uid"
    and "kv_get (''book:'' @ bid) s = None \<or>
         (\<exists>book. kv_get (''book:'' @ bid) s = Some book \<and> map_of book ''userId'' \<noteq> Some (JStr uid))"
  shows "app e (PutMyBook bid) r s = (error_response 403 ''Book not found or unauthorized'', s) \<and>
         app e (DeleteMyBook bid) r s = (error_response 403 ''Book not found or unauthorized'', s) \<and>
         status (error_response 403 ''Book not found or unauthorized'') = 403"
  using assms
  by (auto simp: put_my_book_def delete_my_book_def strict_eq_def)

text \<open>User B tries to retitle, and to delete, the book of user A.\<close>

theorem book_missing_or_foreign_403_witness:
  "authenticate (env_with ''5-e'') (bearer ''tokenB'' [(''title'', JStr ''Mine'')]) = Some ''userB'' \<and>
   kv_get ''book:3-c'' store_book = Some dune \<and>
   map_of dune ''userId'' = Some (JStr ''userA'') \<and>
   app (env_with ''5-e'') (PutMyBook ''3-c'') (bearer ''tokenB'' [(''title'', JStr ''Mine'')]) store_book =
     (error_response 403 ''Book not found or unauthorized'', store_book) \<and>
   app (env_with ''5-e'') (DeleteMyBook ''3-c'') (bearer ''tokenB'' [(''title'', JStr ''Mine'')]) store_book =
     (error_response 403 ''Book not found or unauthorized'', store_book)"
proof -
  have a: "authenticate (env_with ''5-e'') (bearer ''tokenB'' [(''title'', JStr ''Mine'')]) = Some ''userB''"
    by (rule auth_B)
  have u: "map_of dune ''userId'' = Some (JStr ''userA'')"
    by (simp add: dune_def)
  have hyp: "kv_get (''book:'' @ ''3-c'') store_book = None \<or>
      (\<exists>book. kv_get (''book:'' @ ''3-c'') store_book = Some book \<and>
             map_of book ''userId'' \<noteq> Some (JStr ''userB''))"
    using store_book_dune u by simp
  show ?thesis
    using book_missing_or_foreign_403 [OF a hyp] a store_book_dune u by simp
qed

section \<open>The profile of the caller\<close>

text \<open>
  Claim C7, as amended. With a valid bearer token, \<^verbatim>\<open>GET /my/profile\<close> always answers 200,
  with the user record of the caller when there is one and without a \<^verbatim>\<open>user\<close> field when
  there is none; it has no 404. \<^verbatim>\<open>PUT /my/profile\<close> answers 404 and leaves the store
  unchanged when the caller has no user record; when there is one it answers 200, or 500
  with the store unchanged when the body cannot be read.
\<close>

theorem profile_responses:
  assumes "authenticate e r = Some uid"
  shows "app e GetMyProfile r s =
           (json_response 200 [(''user'', map_option JObj (kv_get (''user:'' @ uid) s))], s) \<and>
         (kv_get (''user:'' @ uid) s = None \<longrightarrow>
            app e PutMyProfile r s = (error_response 404 ''User not found'', s)) \<and>
         (kv_get (''user:'' @ uid) s \<noteq> None \<longrightarrow>
            (case body_props r of
               Inl x \<Rightarrow> app e PutMyProfile r s = (error_response 500 ''Failed to update profile'', s)
             | Inr b \<Rightarrow> status (fst (app e PutMyProfile r s)) = 200))"
  using assms
  by (auto simp: get_my_profile_def put_my_profile_def catch500_def Let_def split: sum.splits)

text \<open>User B has no user record, user A has one.\<close>

theorem profile_responses_witness:
  "authenticate (env_with ''5-e'') (bearer ''tokenB'' [(''bio'', JStr ''hello'')]) = Some ''userB'' \<and>
   authenticate (env_with ''5-e'') (bearer ''tokenA'' [(''bio'', JStr ''hello'')]) = Some ''userA'' \<and>
   kv_get ''user:userB'' store_colB = None \<and>
   kv_get ''user:userA'' store_colB \<noteq> None \<and>
   app (env_with ''5-e'') GetMyProfile (bearer ''tokenB'' [(''bio'', JStr ''hello'')]) store_colB =
     (json_response 200 [(''user'', None)], store_colB) \<and>
   app (env_with ''5-e'') PutMyProfile (bearer ''tokenB'' [(''bio'', JStr ''hello'')]) store_colB =
     (error_response 404 ''User not found'', store_colB) \<and>
   status (fst (app (env_with ''5-e'') PutMyProfile (bearer ''tokenA'' [(''bio'', JStr ''hello'')])
     store_colB)) = 200"
proof -
  let ?r = "\<lambda>tok. bearer tok [(''bio'', JStr ''hello'')]"
  have b: "authenticate (env_with ''5-e'') (?r ''tokenB'') = Some ''userB''"
    by (rule auth_B)
  have a: "authenticate (env_with ''5-e'') (?r ''tokenA'') = Some ''userA''"
    by (rule auth_A)
  have nb: "kv_get (''user:'' @ ''userB'') store_colB = None"
    by code_simp
  have na: "kv_get (''user:'' @ ''userA'') store_colB \<noteq> None"
    by code_simp
  have body: "body_props (?r ''tokenA'') = Inr [(''bio'', JStr ''hello'')]"
    by (simp add: body_props_def props_def bearer_def)
  show ?thesis
    using profile_responses [OF b, of store_colB] profile_responses [OF a, of store_colB]
      a b nb na body
    by simp
qed

text \<open>
  The claim as first stated fails for \<^verbatim>\<open>GET\<close>: user B has no user record and is answered
  200 with an empty object, not 404.
\<close>

theorem profile_responses_counterexample:
  "authenticate (env_with ''5-e'') (bearer ''tokenB'' []) = Some ''userB'' \<and>
   kv_get ''user:userB'' store_colB = None \<and>
   app (env_with ''5-e'') GetMyProfile (bearer ''tokenB'' []) store_colB =
     (\<lparr>status = 200, payload = []\<rparr>, store_colB) \<and>
   status (fst (app (env_with ''5-e'') GetMyProfile (bearer ''tokenB'' []) store_colB)) \<noteq> 404"
  by code_simp

section \<open>The public list of collections\<close>

lemma enrich_clean:
  assumes "c \<in> set (kv_getByPrefix p s)"
  shows "serialise_obj (enrich s c) = enrich s c"
proof -
  have c: "serialise_obj c = c"
    using assms by (auto simp: getByPrefix_set)
  have "map_option serialise (user_name (kv_get k s)) = user_name (kv_get k s)" for k
  proof (cases "kv_get k s")
    case None
    then show ?thesis by (simp add: user_name_def js_or_def js_truthy_def)
  next
    case (Some user)
    then show ?thesis
      using kv_get_lookup_clean [OF Some, of "''name''"] by (simp add: user_name_def js_or_def)
  qed
  then show ?thesis
    by (simp add: enrich_def Let_def serialise_obj_spread_with c)
qed

lemma collections_payload:
  "fst (get_collections s) =
     \<lparr>status = 200,
      payload = [(''collections'', JArr (map JObj (map (enrich s) (kv_getByPrefix ''collection:'' s))))]\<rparr>"
proof -
  have clean: "map (map_prod id serialise) (enrich s x) = enrich s x"
    if "x \<in> set (kv_getByPrefix ''collection:'' s)" for x
    using enrich_clean [OF that] by (simp add: serialise_obj_def)
  show ?thesis
    by (simp add: get_collections_def Let_def json_response_def object_def spread_with_def
        set_prop_def objects_def serialise_obj_def comp_def clean cong: map_cong)
qed

text \<open>
  Claim C8, as amended. In every reachable store, \<^verbatim>\<open>GET /collections\<close> answers with the
  collections of the store, each carrying a \<^verbatim>\<open>userName\<close>: the \<^verbatim>\<open>name\<close> of the user record
  \<^verbatim>\<open>user:<collection.userId>\<close>, or \<^verbatim>\<open>Unknown User\<close> when there is no such record or when
  the name of the record is \<^verbatim>\<open>null\<close>.
\<close>

theorem collections_userName:
  assumes "reachable s"
  shows "\<exists>cs. app e GetCollections r s =
             (\<lparr>status = 200, payload = [(''collections'', JArr (map JObj cs))]\<rparr>, s) \<and>
           cs = map (enrich s) (kv_getByPrefix ''collection:'' s) \<and>
           (\<forall>c \<in> set cs.
              map_of c ''userName'' =
                (case kv_get (''user:'' @ template (map_of c ''userId'')) s of
                   None \<Rightarrow> Some (JStr ''Unknown User'')
                 | Some user \<Rightarrow>
                     if map_of user ''name'' = Some JNull then Some (JStr ''Unknown User'')
                     else map_of user ''name''))"
proof -
  have ok: "store_ok s"
    using assms by (rule reachable_store_ok)
  have name: "user_name (kv_get (''user:'' @ x) s) =
      (case kv_get (''user:'' @ x) s of
         None \<Rightarrow> Some (JStr ''Unknown User'')
       | Some user \<Rightarrow>
           if map_of user ''name'' = Some JNull then Some (JStr ''Unknown User'')
           else map_of user ''name'')" for x
  proof (cases "kv_get (''user:'' @ x) s")
    case None
    then show ?thesis by (simp add: user_name_def js_or_def js_truthy_def)
  next
    case (Some user)
    have "entry_ok (''user:'' @ x) user"
      using ok Some by (rule store_ok_get)
    then have "js_truthy (map_of user ''name'') \<or> map_of user ''name'' = Some JNull"
      by (simp add: entry_ok_def startsWith_def)
    then show ?thesis
      using Some by (auto simp: user_name_def js_or_def js_truthy_def)
  qed
  have each: "map_of (enrich s c) ''userName'' =
      (case kv_get (''user:'' @ template (map_of (enrich s c) ''userId'')) s of
         None \<Rightarrow> Some (JStr ''Unknown User'')
       | Some user \<Rightarrow>
           if map_of user ''name'' = Some JNull then Some (JStr ''Unknown User'')
           else map_of user ''name'')" for c
    using name [of "template (map_of c ''userId'')"]
    by (simp add: enrich_def Let_def spread_with_def map_of_set_prop)
  have "app e GetCollections r s = (fst (get_collections s), s)"
    by (simp add: get_collections_def Let_def)
  then show ?thesis
    using each by (simp add: collections_payload)
qed

text \<open>
  The collection of user A carries the name of user A; that of user B, who never signed
  up, carries the default.
\<close>

theorem collections_userName_witness:
  "reachable store_colB \<and>
   (\<exists>cs. app (env_with ''5-e'') GetCollections (anonymous []) store_colB =
           (\<lparr>status = 200, payload = [(''collections'', JArr (map JObj cs))]\<rparr>, store_colB) \<and>
         map (\<lambda>c. (map_of c ''userId'', map_of c ''userName'')) cs =
           [(Some (JStr ''userA''), Some (JStr ''Ann'')),
            (Some (JStr ''userB''), Some (JStr ''Unknown User''))])"
proof -
  obtain cs where run: "app (env_with ''5-e'') GetCollections (anonymous []) store_colB =
        (\<lparr>status = 200, payload = [(''collections'', JArr (map JObj cs))]\<rparr>, store_colB)"
    and cs: "cs = map (enrich store_colB) (kv_getByPrefix ''collection:'' store_colB)"
    using collections_userName [OF reachable_store_colB, of "env_with ''5-e''" "anonymous []"]
    by (elim exE conjE)
  have "map (\<lambda>c. (map_of c ''userId'', map_of c ''userName''))
          (map (enrich store_colB) (kv_getByPrefix ''collection:'' store_colB)) =
        [(Some (JStr ''userA''), Some (JStr ''Ann'')),
         (Some (JStr ''userB''), Some (JStr ''Unknown User''))]"
    by code_simp
  then have names: "map (\<lambda>c. (map_of c ''userId'', map_of c ''userName'')) cs =
        [(Some (JStr ''userA''), Some (JStr ''Ann'')),
         (Some (JStr ''userB''), Some (JStr ''Unknown User''))]"
    unfolding cs .
  show ?thesis
  proof (intro conjI exI)
    show "reachable store_colB"
      by (rule reachable_store_colB)
    show "app (env_with ''5-e'') GetCollections (anonymous []) store_colB =
        (\<lparr>status = 200, payload = [(''collections'', JArr (map JObj cs))]\<rparr>, store_colB)"
      by (rule run)
    show "map (\<lambda>c. (map_of c ''userId'', map_of c ''userName'')) cs =
        [(Some (JStr ''userA''), Some (JStr ''Ann'')),
         (Some (JStr ''userB''), Some (JStr ''Unknown User''))]"
      by (rule names)
  qed
qed

text \<open>
  The claim as first stated fails where a user record has the name \<^verbatim>\<open>null\<close>. User A
  sends \<^verbatim>\<open>1e400\<close> as the new name: the number is truthy, so the update takes it, and it is
  stored as \<^verbatim>\<open>null\<close>. The user record exists, and the collection of user A is listed with
  \<^verbatim>\<open>Unknown User\<close>, which is not the name of the record.
\<close>

theorem collections_userName_counterexample:
  "reachable store_renamed \<and>
   status (fst (app (env_with ''6-f'') PutMyProfile
     (bearer ''tokenA'' [(''name'', JNum ''Infinity'')]) store_colA)) = 200 \<and>
   kv_get ''user:userA'' store_renamed =
     Some [(''id'', JStr ''userA''), (''email'', JStr ''a@example.org''), (''name'', JNull),
           (''updatedAt'', JStr ''2024-01-01T00:00:00.000Z'')] \<and>
   fst (app (env_with ''7-g'') GetCollections (anonymous []) store_renamed) =
     \<lparr>status = 200,
      payload = [(''collections'', JArr [JObj
        [(''id'', JStr ''1-a''), (''name'', JStr ''Sci-Fi''), (''description'', JStr []),
         (''userId'', JStr ''userA''), (''createdAt'', JStr ''2024-01-01T00:00:00.000Z''),
         (''userName'', JStr ''Unknown User'')]])]\<rparr>"
proof -
  have "status (fst (app (env_with ''6-f'') PutMyProfile
     (bearer ''tokenA'' [(''name'', JNum ''Infinity'')]) store_colA)) = 200"
    by code_simp
  moreover have "kv_get ''user:userA'' store_renamed =
     Some [(''id'', JStr ''userA''), (''email'', JStr ''a@example.org''), (''name'', JNull),
           (''updatedAt'', JStr ''2024-01-01T00:00:00.000Z'')]"
    by code_simp
  moreover have "fst (app (env_with ''7-g'') GetCollections (anonymous []) store_renamed) =
     \<lparr>status = 200,
      payload = [(''collections'', JArr [JObj
        [(''id'', JStr ''1-a''), (''name'', JStr ''Sci-Fi''), (''description'', JStr []),
         (''userId'', JStr ''userA''), (''createdAt'', JStr ''2024-01-01T00:00:00.000Z''),
         (''userName'', JStr ''Unknown User'')]])]\<rparr>"
    by code_simp
  ultimately show ?thesis
    using reachable_store_renamed by simp
qed

section \<open>Required fields that are empty\<close>

text \<open>
  Claim C9. An authenticated create request whose body is an object with the required
  field present and equal to the empty string (\<^verbatim>\<open>name\<close> for a collection; \<^verbatim>\<open>title\<close> or
  \<^verbatim>\<open>collectionId\<close> for a book) is answered 400, the answer is the one the same request gets
  with the field removed, and the store is unchanged.
\<close>

theorem empty_required_field_400:
  assumes "authenticate e r = Some uid" and "json_body r = Some (JObj b)"
  shows "(map_of b ''name'' = Some (JStr []) \<longrightarrow>
            app e PostMyCollections r s = (error_response 400 ''Collection name is required'', s) \<and>
            app e PostMyCollections (r\<lparr>json_body := Some (JObj (AList.delete ''name'' b))\<rparr>) s =
              app e PostMyCollections r s) \<and>
         (map_of b ''title'' = Some (JStr []) \<longrightarrow>
            app e PostMyBooks r s = (error_response 400 ''Title and collection are required'', s) \<and>
            app e PostMyBooks (r\<lparr>json_body := Some (JObj (AList.delete ''title'' b))\<rparr>) s =
              app e PostMyBooks r s) \<and>
         (map_of b ''collectionId'' = Some (JStr []) \<longrightarrow>
            app e PostMyBooks r s = (error_response 400 ''Title and collection are required'', s) \<and>
            app e PostMyBooks (r\<lparr>json_body := Some (JObj (AList.delete ''collectionId'' b))\<rparr>) s =
              app e PostMyBooks r s)"
  using assms
  by (simp add: post_my_collections_def post_my_books_def body_props_def props_def catch500_def
      js_truthy_def AList.delete_conv' Let_def)

text \<open>User A sends empty strings for every required field.\<close>

theorem empty_required_field_400_witness:
  "authenticate (env_with ''5-e'')
     (bearer ''tokenA'' [(''name'', JStr []), (''title'', JStr []), (''collectionId'', JStr [])]) =
     Some ''userA'' \<and>
   app (env_with ''5-e'') PostMyCollections
     (bearer ''tokenA'' [(''name'', JStr []), (''title'', JStr []), (''collectionId'', JStr [])])
     store_colA = (error_response 400 ''Collection name is required'', store_colA) \<and>
   app (env_with ''5-e'') PostMyBooks
     (bearer ''tokenA'' [(''name'', JStr []), (''title'', JStr []), (''collectionId'', JStr [])])
     store_colA = (error_response 400 ''Title and collection are required'', store_colA) \<and>
   app (env_with ''5-e'') PostMyCollections
     (bearer ''tokenA'' [(''title'', JStr []), (''collectionId'', JStr [])]) store_colA =
     (error_response 400 ''Collection name is required'', store_colA)"
proof -
  let ?b = "[(''name'', JStr []), (''title'', JStr []), (''collectionId'', JStr [])]"
  have a: "authenticate (env_with ''5-e'') (bearer ''tokenA'' ?b) = Some ''userA''"
    by (rule auth_A)
  have j: "json_body (bearer ''tokenA'' ?b) = Some (JObj ?b)"
    by (simp add: bearer_def)
  have upd: "(bearer ''tokenA'' ?b)\<lparr>json_body := Some (JObj (AList.delete ''name'' ?b))\<rparr> =
      bearer ''tokenA'' [(''title'', JStr []), (''collectionId'', JStr [])]"
    by (simp add: bearer_def)
  show ?thesis
    using empty_required_field_400 [OF a j, of store_colA] a upd by simp
qed

section \<open>What an update of a book cannot change\<close>

text \<open>What a successful update has read and written.\<close>

lemma put_my_book_200:
  assumes "app e (PutMyBook bid) r s = (resp, s')" and "status resp = 200"
  shows "\<exists>old b. kv_get (''book:'' @ bid) s = Some old \<and>
     s' = kv_set (''book:'' @ bid) (spread_with old
       [(''title'', js_or (map_of b ''title'') (map_of old ''title'')),
        (''author'', if_defined (map_of b ''author'') (map_of old ''author'')),
        (''description'', if_defined (map_of b ''description'') (map_of old ''description'')),
        (''coverImage'', if_defined (map_of b ''coverImage'') (map_of old ''coverImage'')),
        (''collectionId'', js_or (map_of b ''collectionId'') (map_of old ''collectionId'')),
        (''updatedAt'', Some (JStr (now e)))]) s"
  using assms
  by (auto simp: put_my_book_def unauthorized_def catch500_def Let_def
      split: option.splits if_splits sum.splits)

text \<open>
  Claim C10. After a successful \<^verbatim>\<open>PUT /my/books/:id\<close> the stored book has the \<^verbatim>\<open>id\<close>,
  \<^verbatim>\<open>userId\<close> and \<^verbatim>\<open>createdAt\<close> it had before, whatever the body of the request supplies
  for them.
\<close>

theorem put_my_book_keeps_identity:
  assumes "app e (PutMyBook bid) r s = (resp, s')" and "status resp = 200"
  shows "\<exists>old new. kv_get (''book:'' @ bid) s = Some old \<and> kv_get (''book:'' @ bid) s' = Some new \<and>
           map_of new ''id'' = map_of old ''id'' \<and>
           map_of new ''userId'' = map_of old ''userId'' \<and>
           map_of new ''createdAt'' = map_of old ''createdAt''"
proof -
  from put_my_book_200 [OF assms]
  obtain old b where old: "kv_get (''book:'' @ bid) s = Some old"
    and s': "s' = kv_set (''book:'' @ bid) (spread_with old
       [(''title'', js_or (map_of b ''title'') (map_of old ''title'')),
        (''author'', if_defined (map_of b ''author'') (map_of old ''author'')),
        (''description'', if_defined (map_of b ''description'') (map_of old ''description'')),
        (''coverImage'', if_defined (map_of b ''coverImage'') (map_of old ''coverImage'')),
        (''collectionId'', js_or (map_of b ''collectionId'') (map_of old ''collectionId'')),
        (''updatedAt'', Some (JStr (now e)))]) s"
    by (elim exE conjE)
  define new where "new = serialise_obj (spread_with old
       [(''title'', js_or (map_of b ''title'') (map_of old ''title'')),
        (''author'', if_defined (map_of b ''author'') (map_of old ''author'')),
        (''description'', if_defined (map_of b ''description'') (map_of old ''description'')),
        (''coverImage'', if_defined (map_of b ''coverImage'') (map_of old ''coverImage'')),
        (''collectionId'', js_or (map_of b ''collectionId'') (map_of old ''collectionId'')),
        (''updatedAt'', Some (JStr (now e)))])"
  have new: "kv_get (''book:'' @ bid) s' = Some new"
    by (simp add: s' kv_get_set new_def)
  have kept: "map_of new k = map_of old k"
    if "k \<notin> {''title'', ''author'', ''description'', ''coverImage'', ''collectionId'', ''updatedAt''}"
    for k
    using that kv_get_lookup_clean [OF old, of k]
    by (simp add: new_def map_of_serialise_obj map_of_override)
  have same: "map_of new ''id'' = map_of old ''id''" "map_of new ''userId'' = map_of old ''userId''"
    "map_of new ''createdAt'' = map_of old ''createdAt''"
    by (rule kept, simp)+
  show ?thesis
  proof (intro exI conjI)
    show "kv_get (''book:'' @ bid) s = Some old"
      by (rule old)
    show "kv_get (''book:'' @ bid) s' = Some new"
      by (rule new)
  qed (rule same)+
qed

text \<open>User A sends a new id, owner and creation time with a new title.\<close>

theorem put_my_book_keeps_identity_witness:
  "status (fst (app (env_with ''4-d'') (PutMyBook ''3-c'')
     (bearer ''tokenA'' [(''id'', JStr ''9-x''), (''userId'', JStr ''userB''),
                         (''createdAt'', JStr ''1999''), (''title'', JStr ''Emma'')]) store_book)) = 200 \<and>
   (\<exists>new. kv_get ''book:3-c'' (snd (app (env_with ''4-d'') (PutMyBook ''3-c'')
     (bearer ''tokenA'' [(''id'', JStr ''9-x''), (''userId'', JStr ''userB''),
                         (''createdAt'', JStr ''1999''), (''title'', JStr ''Emma'')]) store_book)) = Some new \<and>
      map_of new ''title'' = Some (JStr ''Emma'') \<and>
      map_of new ''id'' = Some (JStr ''3-c'') \<and>
      map_of new ''userId'' = Some (JStr ''userA'') \<and>
      map_of new ''createdAt'' = Some (JStr ''2024-01-01T00:00:00.000Z''))"
proof -
  let ?r = "bearer ''tokenA'' [(''id'', JStr ''9-x''), (''userId'', JStr ''userB''),
                               (''createdAt'', JStr ''1999''), (''title'', JStr ''Emma'')]"
  let ?out = "app (env_with ''4-d'') (PutMyBook ''3-c'') ?r store_book"
  have run: "?out = (fst ?out, snd ?out)"
    by simp
  have ok: "status (fst ?out) = 200"
    by code_simp
  have title: "map_option (\<lambda>new. map_of new ''title'') (kv_get ''book:3-c'' (snd ?out)) =
      Some (Some (JStr ''Emma''))"
    by code_simp
  obtain old new where old: "kv_get (''book:'' @ ''3-c'') store_book = Some old"
    and new: "kv_get (''book:'' @ ''3-c'') (snd ?out) = Some new"
    and same: "map_of new ''id'' = map_of old ''id''" "map_of new ''userId'' = map_of old ''userId''"
      "map_of new ''createdAt'' = map_of old ''createdAt''"
    using put_my_book_keeps_identity [OF run ok] by blast
  have "old = dune"
    using old store_book_dune by simp
  then have "map_of new ''id'' = Some (JStr ''3-c'')" "map_of new ''userId'' = Some (JStr ''userA'')"
    "map_of new ''createdAt'' = Some (JStr ''2024-01-01T00:00:00.000Z'')"
    using same by (simp_all add: dune_def)
  moreover have "map_of new ''title'' = Some (JStr ''Emma'')"
    using title new by simp
  ultimately show ?thesis
    using ok new by simp
qed

end
